theory Spec2Isabelle
  imports Main
begin

section \<open>JavaScript values and thrown errors\<close>

text \<open>
  The three source files (\<^verbatim>\<open>index.cjs\<close>, \<^verbatim>\<open>part_000\<close>, \<^verbatim>\<open>part_001\<close>) are Express
  applications.  Request bodies, token payloads, query parameters and result rows are
  JavaScript values.  Numbers are carried as integers: the code never computes with
  them, it only passes them on and tests them for truthiness.
\<close>

datatype jsval =
    JUndefined
  | JNull
  | JBool bool
  | JNum int
  | JStr string
  | JArr "jsval list"
  | JObj "(string \<times> jsval) list"

text \<open>
  A thrown value is an \<^verbatim>\<open>Error\<close> object with a \<^verbatim>\<open>name\<close> and a \<^verbatim>\<open>message\<close> (what the
  runtime and the libraries throw), or a bare value: \<^verbatim>\<open>part_001\<close> throws a message, a
  string, or \<^verbatim>\<open>undefined\<close> when the error had none.  A string has no \<^verbatim>\<open>name\<close> and no
  \<^verbatim>\<open>message\<close>.
\<close>

datatype jserr =
    JsError string string
  | Thrown jsval

fun err_name :: "jserr \<Rightarrow> jsval" where
  "err_name (JsError n m) = JStr n"
| "err_name (Thrown v) = JUndefined"

fun err_message :: "jserr \<Rightarrow> jsval" where
  "err_message (JsError n m) = JStr m"
| "err_message (Thrown v) = JUndefined"

text \<open>\<^verbatim>\<open>!v\<close> is \<open>\<not> truthy v\<close>.\<close>

fun truthy :: "jsval \<Rightarrow> bool" where
  "truthy JUndefined = False"
| "truthy JNull = False"
| "truthy (JBool b) = b"
| "truthy (JNum n) = (n \<noteq> 0)"
| "truthy (JStr s) = (s \<noteq> [])"
| "truthy (JArr xs) = True"
| "truthy (JObj fs) = True"

text \<open>\<^verbatim>\<open>a || b\<close>\<close>

definition js_or :: "jsval \<Rightarrow> jsval \<Rightarrow> jsval" where
  "js_or a b = (if truthy a then a else b)"

definition lookup :: "(string \<times> jsval) list \<Rightarrow> string \<Rightarrow> jsval" where
  "lookup fs k = (case map_of fs k of None \<Rightarrow> JUndefined | Some v \<Rightarrow> v)"

definition TypeError :: jserr where
  "TypeError = JsError ''TypeError'' ''Cannot read properties of undefined''"

text \<open>
  Property access \<^verbatim>\<open>v.k\<close> and destructuring \<^verbatim>\<open>const { k } = v\<close>: a \<^verbatim>\<open>TypeError\<close> on
  \<^verbatim>\<open>undefined\<close> and \<^verbatim>\<open>null\<close>; otherwise the field of an object, and \<^verbatim>\<open>undefined\<close> for
  the field names the code uses on any other value.
\<close>

definition nullish :: "jsval \<Rightarrow> bool" where
  "nullish v = (v = JUndefined \<or> v = JNull)"

fun field :: "jsval \<Rightarrow> string \<Rightarrow> jsval" where
  "field (JObj fs) k = lookup fs k"
| "field v k = JUndefined"

definition get_prop :: "jsval \<Rightarrow> string \<Rightarrow> jserr + jsval" where
  "get_prop v k = (if nullish v then Inl TypeError else Inr (field v k))"

text \<open>Array destructuring \<^verbatim>\<open>const [x] = v\<close> and \<^verbatim>\<open>const [x, y] = v\<close> on an array.\<close>

definition elem :: "jsval list \<Rightarrow> nat \<Rightarrow> jsval" where
  "elem xs i = (if i < length xs then xs ! i else JUndefined)"

text \<open>
  An object is the list of its fields in insertion order, with distinct keys; \<open>lookup\<close>
  reads one.  Writing a property: an existing key keeps its place, a new key goes last.
  (JavaScript lists integer-like keys first; the order of the keys plays no role below.)
\<close>

fun obj_set :: "string \<Rightarrow> jsval \<Rightarrow> (string \<times> jsval) list \<Rightarrow> (string \<times> jsval) list" where
  "obj_set k v [] = [(k, v)]"
| "obj_set k v ((k', v') # fs) = (if k = k' then (k, v) # fs else (k', v') # obj_set k v fs)"

text \<open>Decimal digits of a natural number, for array indices and template literals.\<close>

definition digit :: "nat \<Rightarrow> char" where
  "digit n = ''0123456789'' ! n"

fun show_nat :: "nat \<Rightarrow> string" where
  "show_nat n = (if n < 10 then [digit n] else show_nat (n div 10) @ [digit (n mod 10)])"

declare show_nat.simps [simp del]

definition show_int :: "int \<Rightarrow> string" where
  "show_int i = (if i < 0 then CHR ''-'' # show_nat (nat (- i)) else show_nat (nat i))"

text \<open>
  The own enumerable properties that an object spread \<^verbatim>\<open>{ ...v }\<close> copies: the fields of
  an object, the indices of an array or of a string, nothing for the other values.
\<close>

fun own_entries :: "jsval \<Rightarrow> (string \<times> jsval) list" where
  "own_entries (JObj fs) = fs"
| "own_entries (JArr xs) = zip (map show_nat [0..<length xs]) xs"
| "own_entries (JStr s) = zip (map show_nat [0..<length s]) (map (\<lambda>ch. JStr [ch]) s)"
| "own_entries v = []"

text \<open>\<^verbatim>\<open>{ ...fs, ...v }\<close>: the entries of \<open>v\<close> written into \<open>fs\<close> in order.\<close>

definition spread :: "(string \<times> jsval) list \<Rightarrow> jsval \<Rightarrow> (string \<times> jsval) list" where
  "spread fs v = fold (\<lambda>(k, x). obj_set k x) (own_entries v) fs"

text \<open>
  String conversion of a template literal \<^verbatim>\<open>`${v}`\<close>.
\<close>

fun join_comma :: "string list \<Rightarrow> string" where
  "join_comma [] = []"
| "join_comma [s] = s"
| "join_comma (s # t # ss) = s @ '','' @ join_comma (t # ss)"

fun to_string :: "jsval \<Rightarrow> string" where
  "to_string JUndefined = ''undefined''"
| "to_string JNull = ''null''"
| "to_string (JBool b) = (if b then ''true'' else ''false'')"
| "to_string (JNum n) = show_int n"
| "to_string (JStr s) = s"
| "to_string (JArr xs) =
     join_comma (map (\<lambda>x. if x = JUndefined \<or> x = JNull then [] else to_string x) xs)"
| "to_string (JObj fs) = ''[object Object]''"

text \<open>
  \<^verbatim>\<open>s.split(' ')\<close>: one segment more than there are spaces; \<open>seg\<close> is the segment being
  read.
\<close>

fun split_from :: "string \<Rightarrow> string \<Rightarrow> string list" where
  "split_from seg [] = [rev seg]"
| "split_from seg (ch # s) =
     (if ch = CHR '' '' then rev seg # split_from [] s else split_from (ch # seg) s)"

definition split_sp :: "string \<Rightarrow> string list" where
  "split_sp s = split_from [] s"

text \<open>\<^verbatim>\<open>s.toUpperCase()\<close> on the ASCII letters; other characters are left as they are.\<close>

definition upper_char :: "char \<Rightarrow> char" where
  "upper_char ch =
     (case map_of (zip ''abcdefghijklmnopqrstuvwxyz'' ''ABCDEFGHIJKLMNOPQRSTUVWXYZ'') ch of
        None \<Rightarrow> ch
      | Some u \<Rightarrow> u)"

definition toUpperCase :: "string \<Rightarrow> string" where
  "toUpperCase s = map upper_char s"

section \<open>The libraries the code calls\<close>

text \<open>
  \<^verbatim>\<open>mysql2\<close>, \<^verbatim>\<open>bcrypt\<close> and \<^verbatim>\<open>jsonwebtoken\<close> are not part of the repository.  They are
  parameters of the model: every theorem holds for whatever these functions return.
  \<^item> \<open>get_connection\<close> is \<^verbatim>\<open>pool.getConnection()\<close>: \<open>None\<close> when a connection is handed
    out, \<open>Some e\<close> when the promise rejects with \<open>e\<close>;
  \<^item> \<open>db_query\<close> is the store executing a statement with its bound values: it answers
    with the first component of the result (the rows of a \<^verbatim>\<open>SELECT\<close>, the header of an
    \<^verbatim>\<open>INSERT\<close> or \<^verbatim>\<open>UPDATE\<close>) or throws, and moves the store to its next state;
  \<^item> \<open>bcrypt_hash p\<close> is \<^verbatim>\<open>bcrypt.hash(p, 10)\<close>, \<open>bcrypt_compare\<close> is
    \<^verbatim>\<open>bcrypt.compare\<close>;
  \<^item> \<open>jwt_sign\<close> and \<open>jwt_verify\<close> are \<^verbatim>\<open>jwt.sign\<close> and \<^verbatim>\<open>jwt.verify\<close> with the key
    \<^verbatim>\<open>process.env.JWT_KEY\<close>.
\<close>

record 'x env =
  get_connection :: "'x \<Rightarrow> jserr option"
  db_query :: "'x \<Rightarrow> string \<Rightarrow> jsval list \<Rightarrow> (jserr + jsval) \<times> 'x"
  bcrypt_hash :: "jsval \<Rightarrow> jserr + string"
  bcrypt_compare :: "jsval \<Rightarrow> string \<Rightarrow> jserr + bool"
  jwt_sign :: "jsval \<Rightarrow> jserr + string"
  jwt_verify :: "jsval \<Rightarrow> jserr + jsval"

section \<open>Request, response and pool as one state\<close>

text \<open>
  The method of a request.  (\<^verbatim>\<open>OPTIONS\<close> requests are answered by \<^verbatim>\<open>cors\<close>, which is
  registered first, and never reach the middleware modelled here.)
\<close>

datatype http_method = GET | POST | PUT | DELETE | HEAD | Other string

datatype seg = Lit string | Param string

text \<open>
  The state a request is handled in: the request object as the middleware mutates it
  (\<^verbatim>\<open>req.db\<close>, \<^verbatim>\<open>req.user\<close>, \<^verbatim>\<open>req.params\<close>; \<^verbatim>\<open>part_001\<close> also writes \<^verbatim>\<open>req.status\<close> and
  \<^verbatim>\<open>req.body\<close>), the response (\<^verbatim>\<open>res.statusCode\<close> and what was sent), the pool's
  outstanding leases with the number of \<^verbatim>\<open>release()\<close> calls, and the store.  \<open>visited\<close>
  is a ghost field: the routes whose handler was entered.
\<close>

record 'x ctx =
  meth :: http_method
  path :: "string list"
  auth_header :: "string option"
  body :: jsval
  url_params :: "(string \<times> jsval) list"
  req_user :: jsval
  req_db :: bool
  req_status :: jsval
  status_code :: nat
  sent :: "(nat \<times> jsval) option"
  visited :: "(http_method \<times> seg list) list"
  leased :: int
  releases :: nat
  store :: 'x

type_synonym 'x handler = "'x ctx \<Rightarrow> (jserr + unit) \<times> 'x ctx"

text \<open>The request as Express hands it to the first middleware.\<close>

definition new_request ::
  "http_method \<Rightarrow> string list \<Rightarrow> string option \<Rightarrow> jsval \<Rightarrow> int \<Rightarrow> nat \<Rightarrow> 'x \<Rightarrow> 'x ctx" where
  "new_request m p h b l r x =
     \<lparr>meth = m, path = p, auth_header = h, body = b, url_params = [], req_user = JUndefined,
      req_db = False, req_status = JUndefined, status_code = 200, sent = None, visited = [],
      leased = l, releases = r, store = x\<rparr>"

subsection \<open>Statements that return or throw\<close>

text \<open>
  A statement maps a state to a result, \<open>Inl e\<close> for \<^verbatim>\<open>throw e\<close>, and the state it leaves:
  what a statement did before it threw stays done.  \<open>and_then\<close> is sequencing (with
  \<^verbatim>\<open>await\<close>), \<open>try_catch\<close> is \<^verbatim>\<open>try { } catch (err) { }\<close>.
\<close>

definition ret :: "'a \<Rightarrow> 's \<Rightarrow> (jserr + 'a) \<times> 's" where
  "ret a s = (Inr a, s)"

definition throw :: "jserr \<Rightarrow> 's \<Rightarrow> (jserr + 'a) \<times> 's" where
  "throw e s = (Inl e, s)"

definition lift :: "jserr + 'a \<Rightarrow> 's \<Rightarrow> (jserr + 'a) \<times> 's" where
  "lift r s = (r, s)"

definition and_then ::
  "('s \<Rightarrow> (jserr + 'a) \<times> 's) \<Rightarrow> ('a \<Rightarrow> 's \<Rightarrow> (jserr + 'b) \<times> 's) \<Rightarrow> 's \<Rightarrow> (jserr + 'b) \<times> 's" where
  "and_then m f s = (case m s of (Inl e, s') \<Rightarrow> (Inl e, s') | (Inr a, s') \<Rightarrow> f a s')"

definition try_catch ::
  "('s \<Rightarrow> (jserr + 'a) \<times> 's) \<Rightarrow> (jserr \<Rightarrow> 's \<Rightarrow> (jserr + 'a) \<times> 's) \<Rightarrow> 's \<Rightarrow> (jserr + 'a) \<times> 's" where
  "try_catch m h s = (case m s of (Inl e, s') \<Rightarrow> h e s' | (Inr a, s') \<Rightarrow> (Inr a, s'))"

subsection \<open>The response\<close>

definition HeadersSent :: jserr where
  "HeadersSent = JsError ''Error'' ''Cannot set headers after they are sent to the client''"

text \<open>
  \<^verbatim>\<open>res.json(b)\<close> sends \<open>b\<close> with the current status code; Express throws when a response
  was sent already.  \<^verbatim>\<open>res.status(n).json(b)\<close> sets the status code first.
\<close>

definition res_json :: "jsval \<Rightarrow> 'x handler" where
  "res_json b c =
     (case sent c of
        None \<Rightarrow> (Inr (), c\<lparr>sent := Some (status_code c, b)\<rparr>)
      | Some r \<Rightarrow> (Inl HeadersSent, c))"

definition res_status_json :: "nat \<Rightarrow> jsval \<Rightarrow> 'x handler" where
  "res_status_json n b c = res_json b (c\<lparr>status_code := n\<rparr>)"

subsection \<open>Queries with named placeholders\<close>

definition is_alpha :: "char \<Rightarrow> bool" where
  "is_alpha ch = (ch \<in> set ''abcdefghijklmnopqrstuvwxyzABCDEFGHIJKLMNOPQRSTUVWXYZ'')"

definition is_ident :: "char \<Rightarrow> bool" where
  "is_ident ch = (is_alpha ch \<or> ch \<in> set ''0123456789_'')"

text \<open>
  The lease middleware sets \<^verbatim>\<open>namedPlaceholders = true\<close>, so \<^verbatim>\<open>req.db.query(sql, params)\<close>
  binds, for each \<^verbatim>\<open>:name\<close> of the statement in order, the value \<^verbatim>\<open>params[name]\<close>.
  \<open>placeholders\<close> reads the names off the statement: a colon, a letter, then letters,
  digits and underscores.  (The parametrised statements of the source contain no quoted
  text, no \<^verbatim>\<open>?\<close> and no numbered placeholder.)  \<open>cur\<close> is \<open>None\<close> outside a name and holds
  the name read so far, reversed, after a colon.
\<close>

definition emit :: "string \<Rightarrow> string list" where
  "emit n = (if n = [] then [] else [rev n])"

fun scan :: "string option \<Rightarrow> string \<Rightarrow> string list" where
  "scan None [] = []"
| "scan (Some n) [] = emit n"
| "scan None (ch # s) = (if ch = CHR '':'' then scan (Some []) s else scan None s)"
| "scan (Some n) (ch # s) =
     (if is_ident ch \<and> (n \<noteq> [] \<or> is_alpha ch) then scan (Some (ch # n)) s
      else emit n @ (if ch = CHR '':'' then scan (Some []) s else scan None s))"

definition placeholders :: "string \<Rightarrow> string list" where
  "placeholders sql = scan None sql"

definition bind_named :: "string \<Rightarrow> jsval \<Rightarrow> jsval list" where
  "bind_named sql params = map (field params) (placeholders sql)"

text \<open>\<^verbatim>\<open>await req.db.query(sql, params)\<close> and \<^verbatim>\<open>await req.db.query(sql)\<close>.\<close>

definition run_query :: "'x env \<Rightarrow> string \<Rightarrow> jsval list \<Rightarrow> 'x ctx \<Rightarrow> (jserr + jsval) \<times> 'x ctx" where
  "run_query E sql vals c =
     (case db_query E (store c) sql vals of (r, x) \<Rightarrow> (r, c\<lparr>store := x\<rparr>))"

definition query :: "'x env \<Rightarrow> string \<Rightarrow> jsval \<Rightarrow> 'x ctx \<Rightarrow> (jserr + jsval) \<times> 'x ctx" where
  "query E sql params = run_query E sql (bind_named sql params)"

definition query_plain :: "'x env \<Rightarrow> string \<Rightarrow> 'x ctx \<Rightarrow> (jserr + jsval) \<times> 'x ctx" where
  "query_plain E sql = run_query E sql []"

section \<open>The connection lease middleware\<close>

text \<open>
  \<^verbatim>\<open>index.cjs\<close>, \<^verbatim>\<open>part_000\<close> and \<^verbatim>\<open>part_001\<close>, lines 33 to 55, the same text in the three
  files.  \<^verbatim>\<open>await next()\<close> is read as the code's comments read it: the rest of the
  stack runs to its end, and what it throws is thrown by \<^verbatim>\<open>next()\<close>.
\<close>

definition sql_mode :: string where
  "sql_mode = ''SET SESSION sql_mode = '' @ [CHR 0x22] @ ''TRADITIONAL'' @ [CHR 0x22]"

definition sql_time_zone :: string where
  "sql_time_zone = ''SET time_zone = '' @ [CHR 0x27] @ ''-8:00'' @ [CHR 0x27]"

text \<open>\<^verbatim>\<open>req.db.release()\<close>\<close>

definition release :: "'x ctx \<Rightarrow> 'x ctx" where
  "release c = c\<lparr>leased := leased c - 1, releases := releases c + 1\<rparr>"

definition lease :: "'x env \<Rightarrow> 'x handler \<Rightarrow> 'x handler" where
  "lease E next =
     try_catch
       (\<lambda>c. case get_connection E (store c) of
               Some e \<Rightarrow> throw e c
             | None \<Rightarrow>
                 and_then (query_plain E sql_mode) (\<lambda>_.
                 and_then (query_plain E sql_time_zone) (\<lambda>_.
                 and_then next (\<lambda>_ c'. ret () (release c'))))
                   (c\<lparr>req_db := True, leased := leased c + 1\<rparr>))
       (\<lambda>err c. throw err (if req_db c then release c else c))"

section \<open>The authentication gate\<close>

text \<open>\<^verbatim>\<open>const [scheme, jwtToken] = authHeader.split(' ')\<close>\<close>

definition header_part :: "string \<Rightarrow> nat \<Rightarrow> jsval" where
  "header_part h i = elem (map JStr (split_sp h)) i"

definition err_obj :: "string \<Rightarrow> jsval" where
  "err_obj msg = JObj [(''error'', JStr msg)]"

text \<open>\<^verbatim>\<open>verifyJwt\<close> of \<^verbatim>\<open>index.cjs\<close> (lines 154 to 183) and of \<^verbatim>\<open>part_000\<close> (125 to 158).\<close>

definition verifyJwt :: "'x env \<Rightarrow> 'x handler \<Rightarrow> 'x handler" where
  "verifyJwt E next =
     try_catch
       (\<lambda>c. case auth_header c of
               None \<Rightarrow>
                 res_status_json 401 (err_obj ''Invalid authorization, no authorization header'') c
             | Some authHeader \<Rightarrow>
                 if authHeader = [] then
                   res_status_json 401 (err_obj ''Invalid authorization, no authorization header'') c
                 else
                   let scheme = header_part authHeader 0; jwtToken = header_part authHeader 1 in
                   if \<not> truthy scheme \<or> \<not> truthy jwtToken \<or> scheme \<noteq> JStr ''Bearer'' then
                     res_status_json 401
                       (err_obj ''Invalid authorization, invalid authorization scheme'') c
                   else
                     and_then (lift (jwt_verify E jwtToken)) (\<lambda>decodedJwtObject c'.
                       next (c'\<lparr>req_user := decodedJwtObject\<rparr>)) c)
       (\<lambda>err.
          if err_name err = JStr ''TokenExpiredError'' then
            res_status_json 401 (err_obj ''JWT expired'')
          else if err_name err = JStr ''JsonWebTokenError'' then
            res_status_json 401 (err_obj ''Invalid JWT token'')
          else res_status_json 500 (err_obj ''Internal Server Error''))"

text \<open>
  \<^verbatim>\<open>verifyJwt\<close> of \<^verbatim>\<open>part_001\<close> (lines 151 to 182).  No \<^verbatim>\<open>res.json\<close> of it is followed by
  a \<^verbatim>\<open>return\<close>.  \<^verbatim>\<open>req.app.emit('jwt-error', ...)\<close> has no listener in the file and does
  nothing.  \<^verbatim>\<open>throw((err.status || 500), err.message)\<close> throws the value of the comma
  expression, \<^verbatim>\<open>err.message\<close>; the errors of \<^verbatim>\<open>jsonwebtoken\<close> have no \<^verbatim>\<open>status\<close>.
\<close>

definition verifyJwt_legacy :: "'x env \<Rightarrow> 'x handler \<Rightarrow> 'x handler" where
  "verifyJwt_legacy E next =
     and_then
       (\<lambda>c. case auth_header c of
               None \<Rightarrow>
                 and_then (res_json (JStr ''Invalid authorization, no authorization headers''))
                   (\<lambda>_. throw TypeError) c
             | Some authHeader \<Rightarrow>
                 and_then
                   (if authHeader = [] then
                      res_json (JStr ''Invalid authorization, no authorization headers'')
                    else ret ())
                   (\<lambda>_.
                      let scheme = header_part authHeader 0; jwtToken = header_part authHeader 1 in
                      and_then
                        (if scheme \<noteq> JStr ''Bearer'' then
                           res_json (JStr ''Invalid authorization, invalid authorization scheme'')
                         else ret ())
                        (\<lambda>_.
                           try_catch
                             (and_then (lift (jwt_verify E jwtToken)) (\<lambda>decodedJwtObject c'.
                                ret () (c'\<lparr>req_user := decodedJwtObject\<rparr>)))
                             (\<lambda>err.
                                if truthy (err_message err) \<and>
                                   (toUpperCase (to_string (err_message err)) = ''INVALID TOKEN'' \<or>
                                    toUpperCase (to_string (err_message err)) = ''JWT EXPIRED'')
                                then
                                  (\<lambda>c'. ret () (c'\<lparr>req_status := JNum 500,
                                                     body := err_message err\<rparr>))
                                else throw (Thrown (err_message err))))) c)
       (\<lambda>_. next)"

section \<open>Route handlers\<close>

text \<open>
  The statements are the source's template literals with line breaks and indentation
  written as single spaces.
\<close>

subsection \<open>The car routes of \<^verbatim>\<open>index.cjs\<close> and \<^verbatim>\<open>part_001\<close> (lines 57 to 95)\<close>

definition delete_car :: "'x handler" where
  "delete_car = res_json (JObj [(''success'', JBool True)])"

definition sql_get_car :: string where
  "sql_get_car = ''SELECT * FROM car;''"

definition get_car :: "'x env \<Rightarrow> 'x handler" where
  "get_car E = and_then (query_plain E sql_get_car) (\<lambda>cars. res_json (JObj [(''cars'', cars)]))"

definition sql_post_car :: string where
  "sql_post_car =
     ''INSERT INTO car (make_id, model, date_created, user_id, deleted_flag) VALUES (:makeId, :model, NOW(), :user_id, :deleted_flag);''"

text \<open>The object \<^verbatim>\<open>{ make_id, model, user_id, deleted_flag }\<close> handed to the query.\<close>

definition car_params :: "jsval \<Rightarrow> jsval" where
  "car_params b =
     JObj [(''make_id'', field b ''make_id''), (''model'', field b ''model''),
           (''user_id'', field b ''user_id''), (''deleted_flag'', field b ''deleted_flag'')]"

definition post_car :: "'x env \<Rightarrow> 'x handler" where
  "post_car E c =
     (if nullish (body c) then throw TypeError c
      else
        and_then (query E sql_post_car (car_params (body c))) (\<lambda>insert.
        and_then (lift (get_prop insert ''insertId'')) (\<lambda>insertId.
          res_json (JObj [(''id'', insertId), (''make_id'', field (body c) ''make_id''),
                          (''model'', field (body c) ''model''),
                          (''user_id'', field (body c) ''user_id''),
                          (''deleted_flag'', field (body c) ''deleted_flag'')]))) c)"

subsection \<open>Register and login of \<^verbatim>\<open>index.cjs\<close> (lines 98 to 151) and \<^verbatim>\<open>part_000\<close> (58 to 122)\<close>

definition sql_register :: string where
  "sql_register =
     ''INSERT INTO user_table (email, password, username) VALUES (:email, :hashedPassword, :username);''"

definition post_register :: "'x env \<Rightarrow> 'x handler" where
  "post_register E =
     try_catch
       (\<lambda>c. if nullish (body c) then throw TypeError c
             else
               and_then (lift (bcrypt_hash E (field (body c) ''password''))) (\<lambda>hashedPassword.
               and_then (query E sql_register
                           (JObj [(''email'', field (body c) ''email''),
                                  (''hashedPassword'', JStr hashedPassword),
                                  (''username'', field (body c) ''username'')])) (\<lambda>user.
               and_then (lift (get_prop user ''insertId'')) (\<lambda>insertId.
               and_then (lift (jwt_sign E (JObj (spread [(''UserID'', insertId)] (body c)))))
                 (\<lambda>jwtEncodedUser.
                   res_json (JObj [(''jwt'', JStr jwtEncodedUser), (''success'', JBool True)]))))) c)
       (\<lambda>error. res_json (err_obj ''An error occurred during registration''))"

definition sql_login :: string where
  "sql_login = ''SELECT * FROM user_table WHERE Username = :username''"

definition NotIterable :: jserr where
  "NotIterable = JsError ''TypeError'' ''object is not iterable''"

text \<open>
  \<^verbatim>\<open>const [[user]] = await req.db.query(...)\<close>: the first row of the rows.  The store
  answers a \<^verbatim>\<open>SELECT\<close> with an array; destructuring another value throws.
\<close>

definition first_row :: "jsval \<Rightarrow> jserr + jsval" where
  "first_row rows = (case rows of JArr rs \<Rightarrow> Inr (elem rs 0) | _ \<Rightarrow> Inl NotIterable)"

definition post_login :: "'x env \<Rightarrow> 'x handler" where
  "post_login E =
     try_catch
       (\<lambda>c. if nullish (body c) then throw TypeError c
             else
               and_then (query E sql_login (JObj [(''username'', field (body c) ''username'')]))
                 (\<lambda>rows.
               and_then (lift (first_row rows)) (\<lambda>user.
                 if \<not> truthy user then res_status_json 404 (err_obj ''Username not found'')
                 else
                   and_then
                     (lift (bcrypt_compare E (field (body c) ''password'')
                              (to_string (field user ''Password'')))) (\<lambda>passwordMatches.
                     if passwordMatches then
                       and_then
                         (lift (jwt_sign E (JObj [(''userId'', field user ''UserID''),
                                                  (''username'', field user ''Username'')])))
                         (\<lambda>jwtEncodedUser.
                            res_json (JObj [(''jwt'', JStr jwtEncodedUser),
                                            (''success'', JBool True)]))
                     else
                       res_status_json 401
                         (JObj [(''err'', JStr ''Password is incorrect''),
                                (''success'', JBool False)])))) c)
       (\<lambda>err. res_status_json 500
                 (JObj [(''error'', JStr ''Internal server error''), (''success'', JBool False)]))"

subsection \<open>Register and log-in of \<^verbatim>\<open>part_001\<close> (lines 98 to 148)\<close>

definition sql_register_legacy :: string where
  "sql_register_legacy = ''INSERT INTO user (user_name, password) VALUES (:username, :hashedPassword);''"

definition post_register_legacy :: "'x env \<Rightarrow> 'x handler" where
  "post_register_legacy E =
     try_catch
       (\<lambda>c. if nullish (body c) then throw TypeError c
             else
               and_then (lift (bcrypt_hash E (field (body c) ''password''))) (\<lambda>hashedPassword.
               and_then (query E sql_register_legacy
                           (JObj [(''username'', field (body c) ''username''),
                                  (''hashedPassword'', JStr hashedPassword)])) (\<lambda>user.
               and_then (lift (get_prop user ''insertId'')) (\<lambda>insertId.
               and_then (lift (jwt_sign E (JObj (spread [(''userId'', insertId)] (body c)))))
                 (\<lambda>jwtEncodedUser. res_json (JObj [(''jwt'', JStr jwtEncodedUser)]))))) c)
       (\<lambda>error. res_json (err_obj ''An error occurred during registration''))"

definition sql_log_in_legacy :: string where
  "sql_log_in_legacy = ''SELECT * FROM user WHERE user_name = :username''"

text \<open>
  \<^verbatim>\<open>if (!user) res.json('Username not found');\<close> does not return: the next line reads
  \<^verbatim>\<open>user.password\<close>.  The \<^verbatim>\<open>catch\<close> block only logs.
\<close>

definition post_log_in_legacy :: "'x env \<Rightarrow> 'x handler" where
  "post_log_in_legacy E =
     try_catch
       (\<lambda>c. if nullish (body c) then throw TypeError c
             else
               and_then (query E sql_log_in_legacy
                           (JObj [(''username'', field (body c) ''username'')])) (\<lambda>rows.
               and_then (lift (first_row rows)) (\<lambda>user.
               and_then (if \<not> truthy user then res_json (JStr ''Username not found'') else ret ())
                 (\<lambda>_.
               and_then (lift (get_prop user ''password'')) (\<lambda>password.
               and_then
                 (lift (bcrypt_compare E (field (body c) ''password'') (to_string password)))
                 (\<lambda>passwordMatches.
                   if passwordMatches then
                     and_then
                       (lift (jwt_sign E (JObj [(''userId'', field user ''id''),
                                                (''username'', field user ''username'')])))
                       (\<lambda>jwtEncodedUser. res_json (JObj [(''jwt'', JStr jwtEncodedUser)]))
                   else res_json (JStr ''Password not found'')))))) c)
       (\<lambda>err. ret ())"

subsection \<open>The journal routes of \<^verbatim>\<open>part_000\<close> (lines 162 to 273)\<close>

definition sql_post_entry :: string where
  "sql_post_entry =
     ''INSERT INTO entry_table (UserID, DateCreated, Title, Content, Mood, DeletedFlag) VALUES (:userId, NOW(), :title, :content, :mood, :deletedFlag);''"

definition post_entry_table :: "'x env \<Rightarrow> 'x handler" where
  "post_entry_table E c =
     (if nullish (req_user c) \<or> nullish (body c) then throw TypeError c
      else
        let userId = field (req_user c) ''userId''; title = field (body c) ''title'';
            content = field (body c) ''content''; mood = field (body c) ''mood'' in
        if \<not> truthy title \<or> \<not> truthy content \<or> \<not> truthy mood then
          res_status_json 400 (err_obj ''Missing fields'') c
        else
          and_then (query E sql_post_entry
                      (JObj [(''userId'', userId), (''title'', title), (''content'', content),
                             (''mood'', mood), (''deletedFlag'', JNum 0)])) (\<lambda>insert.
          and_then (lift (get_prop insert ''insertId'')) (\<lambda>insertId.
            res_json (JObj [(''id'', insertId), (''userId'', userId), (''title'', title),
                            (''content'', content), (''mood'', mood)]))) c)"

definition sql_put_entry :: string where
  "sql_put_entry =
     ''UPDATE entry_table SET Title = :title, Content = :content, Mood = :mood WHERE EntryID = :id''"

definition put_entry_table :: "'x env \<Rightarrow> 'x handler" where
  "put_entry_table E =
     try_catch
       (\<lambda>c. if nullish (body c) then throw TypeError c
             else
               and_then (query E sql_put_entry
                           (JObj [(''id'', field (body c) ''id''),
                                  (''title'', field (body c) ''title''),
                                  (''content'', field (body c) ''content''),
                                  (''mood'', field (body c) ''mood'')])) (\<lambda>_.
                 res_status_json 200 (JObj [(''message'', JStr ''Entry updated successfully'')])) c)
       (\<lambda>error. res_status_json 500 (err_obj ''Internal server error''))"

definition sql_get_entry :: string where
  "sql_get_entry = ''SELECT * FROM entry_table WHERE UserID = :userId AND DeletedFlag = 0;''"

definition get_entry_table :: "'x env \<Rightarrow> 'x handler" where
  "get_entry_table E c =
     (if nullish (req_user c) then throw TypeError c
      else
        and_then (query E sql_get_entry (JObj [(''userId'', field (req_user c) ''userId'')]))
          (\<lambda>entries. res_json (JObj [(''entries'', entries)])) c)"

definition sql_delete_entry :: string where
  "sql_delete_entry = ''UPDATE entry_table SET DeletedFlag = 1 WHERE EntryID = :entryId''"

definition delete_entry_table :: "'x env \<Rightarrow> 'x handler" where
  "delete_entry_table E c =
     and_then (query E sql_delete_entry (JObj [(''entryId'', lookup (url_params c) ''id'')]))
       (\<lambda>_. res_json (JObj [(''success'', JBool True)])) c"

definition sql_get_user :: string where
  "sql_get_user = ''SELECT Username FROM user_table WHERE UserID = :userId;''"

text \<open>\<^verbatim>\<open>user.length\<close> and \<^verbatim>\<open>user[0]\<close> of the rows.\<close>

fun js_length :: "jsval \<Rightarrow> jsval" where
  "js_length (JArr rs) = JNum (int (length rs))"
| "js_length (JStr s) = JNum (int (length s))"
| "js_length (JObj fs) = lookup fs ''length''"
| "js_length v = JUndefined"

fun index0 :: "jsval \<Rightarrow> jsval" where
  "index0 (JArr rs) = elem rs 0"
| "index0 (JStr s) = (case s of [] \<Rightarrow> JUndefined | ch # _ \<Rightarrow> JStr [ch])"
| "index0 (JObj fs) = lookup fs ''0''"
| "index0 v = JUndefined"

definition get_user_table :: "'x env \<Rightarrow> 'x handler" where
  "get_user_table E c =
     (if nullish (req_user c) then throw TypeError c
      else
        and_then (query E sql_get_user (JObj [(''userId'', field (req_user c) ''userId'')]))
          (\<lambda>user.
             if \<not> truthy user \<or> js_length user = JNum 0 then
               res_status_json 404 (err_obj ''User not found'')
             else
               and_then (lift (get_prop (index0 user) ''Username'')) (\<lambda>username.
                 res_json (JObj [(''username'', username)]))) c)"

section \<open>The middleware stack\<close>

text \<open>
  Express runs the layers in the order they were registered.  \<^verbatim>\<open>app.use(f)\<close> matches
  every request and runs \<open>f\<close> with the rest of the stack as \<^verbatim>\<open>next\<close>; a route matches a
  method and a path pattern, fills \<^verbatim>\<open>req.params\<close> and runs its handler, which never
  calls \<^verbatim>\<open>next\<close> in these files.  A layer of \<^verbatim>\<open>app.use\<close> carries the name of its function
  (empty for an arrow function).  A path is the list of its segments, compared as given.  \<^verbatim>\<open>cors\<close> and
  \<^verbatim>\<open>bodyParser.json()\<close>, which come first, are not modelled: the request carries its parsed
  body.  The answer Express gives a request that no layer answered is not modelled
  either.
\<close>

datatype 'x layer =
    Use string "'x handler \<Rightarrow> 'x handler"
  | Route http_method "seg list" "'x handler"

fun match_path :: "seg list \<Rightarrow> string list \<Rightarrow> (string \<times> jsval) list option" where
  "match_path [] [] = Some []"
| "match_path (Lit s # ps) (x # xs) = (if s = x then match_path ps xs else None)"
| "match_path (Param n # ps) (x # xs) =
     (case match_path ps xs of None \<Rightarrow> None | Some kv \<Rightarrow> Some ((n, JStr x) # kv))"
| "match_path ps xs = None"

text \<open>A route of \<^verbatim>\<open>app.get\<close> also serves \<^verbatim>\<open>HEAD\<close> requests.\<close>

definition serves :: "http_method \<Rightarrow> http_method \<Rightarrow> bool" where
  "serves m r = (r = m \<or> (r = HEAD \<and> m = GET))"

fun run :: "'x layer list \<Rightarrow> 'x handler" where
  "run [] = ret ()"
| "run (Use n f # ls) = f (run ls)"
| "run (Route m p h # ls) =
     (\<lambda>c. if serves m (meth c) then
            (case match_path p (path c) of
               None \<Rightarrow> run ls c
             | Some kv \<Rightarrow> h (c\<lparr>url_params := kv, visited := visited c @ [(m, p)]\<rparr>))
          else run ls c)"

text \<open>\<^verbatim>\<open>index.cjs\<close>\<close>

definition app_index :: "'x env \<Rightarrow> 'x layer list" where
  "app_index E =
     [Use [] (lease E),
      Route DELETE [Lit ''car'', Param ''id''] delete_car,
      Route GET [Lit ''car''] (get_car E),
      Route POST [Lit ''car''] (post_car E),
      Route POST [Lit ''register''] (post_register E),
      Route POST [Lit ''login''] (post_login E),
      Use ''verifyJwt'' (verifyJwt E)]"

text \<open>\<^verbatim>\<open>part_000\<close>\<close>

definition app_journal :: "'x env \<Rightarrow> 'x layer list" where
  "app_journal E =
     [Use [] (lease E),
      Route POST [Lit ''register''] (post_register E),
      Route POST [Lit ''login''] (post_login E),
      Use ''verifyJwt'' (verifyJwt E),
      Route POST [Lit ''entry_table''] (post_entry_table E),
      Route PUT [Lit ''entry_table''] (put_entry_table E),
      Route GET [Lit ''entry_table''] (get_entry_table E),
      Route DELETE [Lit ''entry_table'', Param ''id''] (delete_entry_table E),
      Route GET [Lit ''user_table''] (get_user_table E)]"

text \<open>\<^verbatim>\<open>part_001\<close>\<close>

definition app_legacy :: "'x env \<Rightarrow> 'x layer list" where
  "app_legacy E =
     [Use [] (lease E),
      Route DELETE [Lit ''car'', Param ''id''] delete_car,
      Route GET [Lit ''car''] (get_car E),
      Route POST [Lit ''car''] (post_car E),
      Route POST [Lit ''register''] (post_register_legacy E),
      Route POST [Lit ''log-in''] (post_log_in_legacy E),
      Use ''verifyJwt'' (verifyJwt_legacy E)]"

section \<open>Routes before and after the gate\<close>

text \<open>
  The routes of a stack, split at the first \<^verbatim>\<open>app.use\<close> of a function named
  \<^verbatim>\<open>verifyJwt\<close>.
\<close>

fun routes_before_gate :: "'x layer list \<Rightarrow> (http_method \<times> seg list) list" where
  "routes_before_gate [] = []"
| "routes_before_gate (Use n f # ls) = (if n = ''verifyJwt'' then [] else routes_before_gate ls)"
| "routes_before_gate (Route m p h # ls) = (m, p) # routes_before_gate ls"

fun routes_of :: "'x layer list \<Rightarrow> (http_method \<times> seg list) list" where
  "routes_of [] = []"
| "routes_of (Use n f # ls) = routes_of ls"
| "routes_of (Route m p h # ls) = (m, p) # routes_of ls"

fun routes_after_gate :: "'x layer list \<Rightarrow> (http_method \<times> seg list) list" where
  "routes_after_gate [] = []"
| "routes_after_gate (Use n f # ls) = (if n = ''verifyJwt'' then routes_of ls else routes_after_gate ls)"
| "routes_after_gate (Route m p h # ls) = routes_after_gate ls"

section \<open>A store and libraries to run the model on\<close>

text \<open>
  Stand-ins for the store and the libraries, used only to run the model on concrete
  requests: an in-memory store that answers the statements of the examples, a hash that
  prefixes the password, and a verifier that knows four tokens.
\<close>

record mem =
  users :: "jsval list"
  legacy_users :: "jsval list"
  entries :: "jsval list"
  next_id :: int

text \<open>A column against a bound value, compared as text: the integer 2 equals \<^verbatim>\<open>'2'\<close>.\<close>

definition sql_eq :: "jsval \<Rightarrow> jsval \<Rightarrow> bool" where
  "sql_eq a b = (to_string a = to_string b)"

fun set_field :: "string \<Rightarrow> jsval \<Rightarrow> jsval \<Rightarrow> jsval" where
  "set_field k v (JObj fs) = JObj (obj_set k v fs)"
| "set_field k v w = w"

definition mem_query :: "mem \<Rightarrow> string \<Rightarrow> jsval list \<Rightarrow> (jserr + jsval) \<times> mem" where
  "mem_query x sql vals =
     (if sql = sql_login then
        (Inr (JArr (filter (\<lambda>u. sql_eq (field u ''Username'') (elem vals 0)) (users x))), x)
      else if sql = sql_log_in_legacy then
        (Inr (JArr (filter (\<lambda>u. sql_eq (field u ''user_name'') (elem vals 0)) (legacy_users x))), x)
      else if sql = sql_register then
        (Inr (JObj [(''insertId'', JNum (next_id x))]),
         x\<lparr>users := users x @ [JObj [(''UserID'', JNum (next_id x)), (''Email'', elem vals 0),
                                        (''Password'', elem vals 1), (''Username'', elem vals 2)]],
           next_id := next_id x + 1\<rparr>)
      else if sql = sql_get_entry then
        (Inr (JArr (filter (\<lambda>e. sql_eq (field e ''UserID'') (elem vals 0) \<and>
                                   field e ''DeletedFlag'' = JNum 0) (entries x))), x)
      else if sql = sql_delete_entry then
        (Inr (JObj []),
         x\<lparr>entries := map (\<lambda>e. if sql_eq (field e ''EntryID'') (elem vals 0)
                                  then set_field ''DeletedFlag'' (JNum 1) e else e) (entries x)\<rparr>)
      else if sql = sql_put_entry then
        (Inr (JObj []),
         x\<lparr>entries := map (\<lambda>e. if sql_eq (field e ''EntryID'') (elem vals 3)
                                  then set_field ''Mood'' (elem vals 2)
                                         (set_field ''Content'' (elem vals 1)
                                           (set_field ''Title'' (elem vals 0) e))
                                  else e) (entries x)\<rparr>)
      else (Inr (JArr []), x))"

definition alice_claims :: jsval where
  "alice_claims = JObj [(''userId'', JNum 1), (''username'', JStr ''alice'')]"

definition test_verify :: "jsval \<Rightarrow> jserr + jsval" where
  "test_verify t =
     (if t = JStr ''alice'' then Inr alice_claims
      else if t = JStr ''expired'' then Inl (JsError ''TokenExpiredError'' ''jwt expired'')
      else if t = JStr ''early'' then Inl (JsError ''NotBeforeError'' ''jwt not active'')
      else Inl (JsError ''JsonWebTokenError'' ''jwt malformed''))"

definition test_hash :: "jsval \<Rightarrow> jserr + string" where
  "test_hash p =
     (case p of JStr s \<Rightarrow> Inr (''hash of '' @ s)
      | _ \<Rightarrow> Inl (JsError ''Error'' ''data and salt arguments required''))"

definition test_compare :: "jsval \<Rightarrow> string \<Rightarrow> jserr + bool" where
  "test_compare p h =
     (case p of JStr s \<Rightarrow> Inr (h = ''hash of '' @ s)
      | _ \<Rightarrow> Inl (JsError ''Error'' ''data and hash arguments required''))"

definition test_env :: "mem env" where
  "test_env =
     \<lparr>get_connection = (\<lambda>x. None), db_query = mem_query, bcrypt_hash = test_hash,
      bcrypt_compare = test_compare, jwt_sign = (\<lambda>payload. Inr ''signed''),
      jwt_verify = test_verify\<rparr>"

text \<open>The same, with a store that has lost the \<^verbatim>\<open>car\<close> table.\<close>

definition broken_env :: "mem env" where
  "broken_env =
     test_env\<lparr>db_query := (\<lambda>x sql vals.
        if sql = sql_get_car then (Inl (JsError ''Error'' ''ER_NO_SUCH_TABLE''), x)
        else mem_query x sql vals)\<rparr>"



text \<open>
  A store with two identities, alice (id 1) and bob (id 2), in both user tables, and one
  journal entry of each.
\<close>

definition entry_of_alice :: jsval where
  "entry_of_alice =
     JObj [(''EntryID'', JNum 1), (''UserID'', JNum 1), (''Title'', JStr ''a''),
           (''Content'', JStr ''alice writes''), (''Mood'', JStr ''calm''),
           (''DeletedFlag'', JNum 0)]"

definition entry_of_bob :: jsval where
  "entry_of_bob =
     JObj [(''EntryID'', JNum 2), (''UserID'', JNum 2), (''Title'', JStr ''b''),
           (''Content'', JStr ''bob writes''), (''Mood'', JStr ''glad''),
           (''DeletedFlag'', JNum 0)]"

definition test_store :: mem where
  "test_store =
     \<lparr>users = [JObj [(''UserID'', JNum 1), (''Email'', JStr ''a@x''),
                      (''Password'', JStr ''hash of apw''), (''Username'', JStr ''alice'')],
               JObj [(''UserID'', JNum 2), (''Email'', JStr ''b@x''),
                      (''Password'', JStr ''hash of bpw''), (''Username'', JStr ''bob'')]],
      legacy_users = [JObj [(''id'', JNum 1), (''user_name'', JStr ''alice''),
                             (''password'', JStr ''hash of apw'')],
                      JObj [(''id'', JNum 2), (''user_name'', JStr ''bob''),
                             (''password'', JStr ''hash of bpw'')]],
      entries = [entry_of_alice, entry_of_bob],
      next_id = 3\<rparr>"

section \<open>What a statement leaves unchanged\<close>

text \<open>
  Predicates for the proofs.  A \<open>quiet\<close> statement changes nothing but the response and
  the store; a \<open>neutral\<close> one leaves the pool and \<^verbatim>\<open>req.db\<close> as they are.
\<close>

definition same_req :: "'x ctx \<Rightarrow> 'x ctx \<Rightarrow> bool" where
  "same_req c c' =
     (meth c' = meth c \<and> path c' = path c \<and> auth_header c' = auth_header c \<and>
      body c' = body c \<and> url_params c' = url_params c \<and> req_user c' = req_user c \<and>
      req_db c' = req_db c \<and> req_status c' = req_status c \<and> visited c' = visited c \<and>
      leased c' = leased c \<and> releases c' = releases c)"

definition quiet :: "('x ctx \<Rightarrow> (jserr + 'a) \<times> 'x ctx) \<Rightarrow> bool" where
  "quiet f = (\<forall>c. same_req c (snd (f c)))"

definition pool_eq :: "'x ctx \<Rightarrow> 'x ctx \<Rightarrow> bool" where
  "pool_eq c c' = (leased c' = leased c \<and> releases c' = releases c \<and> req_db c' = req_db c)"

definition neutral :: "('x ctx \<Rightarrow> (jserr + 'a) \<times> 'x ctx) \<Rightarrow> bool" where
  "neutral f = (\<forall>c. pool_eq c (snd (f c)))"

fun neutral_layer :: "'x layer \<Rightarrow> bool" where
  "neutral_layer (Use n f) = (\<forall>next. neutral next \<longrightarrow> neutral (f next))"
| "neutral_layer (Route m p h) = neutral h"

fun quiet_route :: "'x layer \<Rightarrow> bool" where
  "quiet_route (Use n f) = False"
| "quiet_route (Route m p h) = quiet h"

section \<open>A verified bearer token\<close>

text \<open>
  \<open>token_verified E h claims\<close>: the header \<open>h\<close> presents a bearer token, its second
  space-delimited segment, and \<^verbatim>\<open>jwt.verify\<close> returns \<open>claims\<close> for it.
\<close>

definition token_verified :: "'x env \<Rightarrow> string option \<Rightarrow> jsval \<Rightarrow> bool" where
  "token_verified E h claims =
     (case h of
        None \<Rightarrow> False
      | Some hdr \<Rightarrow>
          header_part hdr 0 = JStr ''Bearer'' \<and> truthy (header_part hdr 1) \<and>
          jwt_verify E (header_part hdr 1) = Inr claims)"

text \<open>The answer to a header of the wrong shape.\<close>

definition scheme_mismatch :: "'x ctx \<Rightarrow> (jserr + unit) \<times> 'x ctx" where
  "scheme_mismatch c =
     (Inr (), c\<lparr>status_code := 401,
                 sent := Some (401, err_obj ''Invalid authorization, invalid authorization scheme'')\<rparr>)"

section \<open>Frame lemmas\<close>

lemma same_req_refl: "same_req c c"
  by (simp add: same_req_def)

lemma same_req_trans: "same_req a b \<Longrightarrow> same_req b c \<Longrightarrow> same_req a c"
  by (simp add: same_req_def)

lemma quietI: "(\<And>c. same_req c (snd (f c))) \<Longrightarrow> quiet f"
  by (simp add: quiet_def)

lemma quietD: "quiet f \<Longrightarrow> same_req c (snd (f c))"
  by (simp add: quiet_def)

lemma quiet_ret: "quiet (ret a)"
  by (simp add: quiet_def ret_def same_req_refl)

lemma quiet_throw: "quiet (throw e)"
  by (simp add: quiet_def throw_def same_req_refl)

lemma quiet_lift: "quiet (lift r)"
  by (simp add: quiet_def lift_def same_req_refl)

lemma quiet_and_then:
  assumes "quiet m" and "\<And>a. quiet (f a)"
  shows "quiet (and_then m f)"
proof (rule quietI)
  fix c
  obtain r s where ms: "m c = (r, s)" by (cases "m c")
  have cs: "same_req c s" using quietD [OF assms(1), of c] ms by simp
  show "same_req c (snd (and_then m f c))"
  proof (cases r)
    case (Inl e)
    then show ?thesis using ms cs by (simp add: and_then_def)
  next
    case (Inr a)
    have "same_req s (snd (f a s))" using assms(2) by (rule quietD)
    then show ?thesis using Inr ms cs by (auto simp add: and_then_def intro: same_req_trans)
  qed
qed

lemma quiet_try_catch:
  assumes "quiet m" and "\<And>e. quiet (h e)"
  shows "quiet (try_catch m h)"
proof (rule quietI)
  fix c
  obtain r s where ms: "m c = (r, s)" by (cases "m c")
  have cs: "same_req c s" using quietD [OF assms(1), of c] ms by simp
  show "same_req c (snd (try_catch m h c))"
  proof (cases r)
    case (Inl e)
    have "same_req s (snd (h e s))" using assms(2) by (rule quietD)
    then show ?thesis using Inl ms cs by (auto simp add: try_catch_def intro: same_req_trans)
  next
    case (Inr a)
    then show ?thesis using ms cs by (simp add: try_catch_def)
  qed
qed

lemma quiet_if: "quiet f \<Longrightarrow> quiet g \<Longrightarrow> quiet (if b then f else g)"
  by simp

lemma quiet_res_json: "quiet (res_json b)"
  by (simp add: quiet_def res_json_def same_req_def split: option.splits)

lemma quiet_res_status_json: "quiet (res_status_json n b)"
  by (simp add: quiet_def res_status_json_def res_json_def same_req_def split: option.splits)

lemma quiet_run_query: "quiet (run_query E sql vals)"
  by (simp add: quiet_def run_query_def same_req_def split: prod.splits)

lemma quiet_query: "quiet (query E sql ps)"
  by (simp add: query_def quiet_run_query)

lemma quiet_query_plain: "quiet (query_plain E sql)"
  by (simp add: query_plain_def quiet_run_query)

lemmas quiet_intros = quiet_ret quiet_throw quiet_lift quiet_and_then quiet_try_catch quiet_if
  quiet_res_json quiet_res_status_json quiet_query quiet_query_plain

lemma quiet_delete_car: "quiet delete_car"
  by (simp add: delete_car_def quiet_intros)

lemma quiet_get_car: "quiet (get_car E)"
  by (simp add: get_car_def quiet_intros)

lemma quiet_post_car: "quiet (post_car E)"
  by (rule quietI) (simp add: post_car_def quietD quiet_intros)

lemma quiet_post_register: "quiet (post_register E)"
  unfolding post_register_def
  by (intro quiet_intros quietI) (simp add: quietD quiet_intros)

lemma quiet_post_login: "quiet (post_login E)"
  unfolding post_login_def
  by (intro quiet_intros quietI) (simp add: quietD quiet_intros)

lemma quiet_post_register_legacy: "quiet (post_register_legacy E)"
  unfolding post_register_legacy_def
  by (intro quiet_intros quietI) (simp add: quietD quiet_intros)

lemma quiet_post_log_in_legacy: "quiet (post_log_in_legacy E)"
  unfolding post_log_in_legacy_def
  by (intro quiet_intros quietI) (simp add: quietD quiet_intros)

lemma quiet_post_entry_table: "quiet (post_entry_table E)"
  by (rule quietI) (simp add: post_entry_table_def Let_def quietD quiet_intros)

lemma quiet_put_entry_table: "quiet (put_entry_table E)"
  unfolding put_entry_table_def
  by (intro quiet_intros quietI) (simp add: quietD quiet_intros)

lemma quiet_get_entry_table: "quiet (get_entry_table E)"
  by (rule quietI) (simp add: get_entry_table_def quietD quiet_intros)

lemma quiet_delete_entry_table: "quiet (delete_entry_table E)"
  by (rule quietI) (simp add: delete_entry_table_def quietD quiet_intros)

lemma quiet_get_user_table: "quiet (get_user_table E)"
  by (rule quietI) (simp add: get_user_table_def quietD quiet_intros)

lemmas quiet_handlers = quiet_delete_car quiet_get_car quiet_post_car quiet_post_register
  quiet_post_login quiet_post_register_legacy quiet_post_log_in_legacy quiet_post_entry_table
  quiet_put_entry_table quiet_get_entry_table quiet_delete_entry_table quiet_get_user_table

lemma pool_eq_refl: "pool_eq c c"
  by (simp add: pool_eq_def)

lemma pool_eq_trans: "pool_eq a b \<Longrightarrow> pool_eq b c \<Longrightarrow> pool_eq a c"
  by (simp add: pool_eq_def)

lemma quiet_neutral: "quiet f \<Longrightarrow> neutral f"
  by (simp add: quiet_def neutral_def same_req_def pool_eq_def)

lemma neutralI: "(\<And>c. pool_eq c (snd (f c))) \<Longrightarrow> neutral f"
  by (simp add: neutral_def)

lemma neutralD: "neutral f \<Longrightarrow> pool_eq c (snd (f c))"
  by (simp add: neutral_def)

lemma neutral_and_then:
  assumes "neutral m" and "\<And>a. neutral (f a)"
  shows "neutral (and_then m f)"
proof (rule neutralI)
  fix c
  obtain r s where ms: "m c = (r, s)" by (cases "m c")
  have cs: "pool_eq c s" using neutralD [OF assms(1), of c] ms by simp
  show "pool_eq c (snd (and_then m f c))"
  proof (cases r)
    case (Inl e)
    then show ?thesis using ms cs by (simp add: and_then_def)
  next
    case (Inr a)
    have "pool_eq s (snd (f a s))" using assms(2) by (rule neutralD)
    then show ?thesis using Inr ms cs by (auto simp add: and_then_def intro: pool_eq_trans)
  qed
qed

lemma neutral_try_catch:
  assumes "neutral m" and "\<And>e. neutral (h e)"
  shows "neutral (try_catch m h)"
proof (rule neutralI)
  fix c
  obtain r s where ms: "m c = (r, s)" by (cases "m c")
  have cs: "pool_eq c s" using neutralD [OF assms(1), of c] ms by simp
  show "pool_eq c (snd (try_catch m h c))"
  proof (cases r)
    case (Inl e)
    have "pool_eq s (snd (h e s))" using assms(2) by (rule neutralD)
    then show ?thesis using Inl ms cs by (auto simp add: try_catch_def intro: pool_eq_trans)
  next
    case (Inr a)
    then show ?thesis using ms cs by (simp add: try_catch_def)
  qed
qed

lemma neutral_if: "neutral f \<Longrightarrow> neutral g \<Longrightarrow> neutral (if b then f else g)"
  by simp

lemma neutral_set_user: "neutral next \<Longrightarrow> neutral (\<lambda>c. next (c\<lparr>req_user := d\<rparr>))"
  by (simp add: neutral_def pool_eq_def)

lemma neutral_mark: "neutral (\<lambda>c. ret () (c\<lparr>req_user := d\<rparr>))"
  by (simp add: neutral_def pool_eq_def ret_def)

lemma neutral_mark_legacy: "neutral (\<lambda>c. ret () (c\<lparr>req_status := a, body := b\<rparr>))"
  by (simp add: neutral_def pool_eq_def ret_def)

lemmas neutral_leaves =
  quiet_ret [THEN quiet_neutral] quiet_throw [THEN quiet_neutral] quiet_lift [THEN quiet_neutral]
  quiet_res_json [THEN quiet_neutral] quiet_res_status_json [THEN quiet_neutral]
  quiet_query [THEN quiet_neutral] quiet_query_plain [THEN quiet_neutral]

lemmas neutral_intros = neutral_leaves neutral_and_then neutral_try_catch neutral_if
  neutral_set_user neutral_mark neutral_mark_legacy

lemma neutral_verifyJwt:
  assumes "neutral next"
  shows "neutral (verifyJwt E next)"
  unfolding verifyJwt_def
  by (intro neutral_intros neutralI)
     (simp add: Let_def neutralD neutral_intros assms split: option.splits)

lemma neutral_verifyJwt_legacy:
  assumes "neutral next"
  shows "neutral (verifyJwt_legacy E next)"
  unfolding verifyJwt_legacy_def
  by (intro neutral_and_then neutralI assms)
     (simp add: Let_def neutralD neutral_intros assms split: option.splits)

lemma neutral_run: "\<forall>l \<in> set ls. neutral_layer l \<Longrightarrow> neutral (run ls)"
proof (induction ls)
  case Nil
  then show ?case by (simp add: neutral_leaves)
next
  case (Cons l ls)
  then have IH: "neutral (run ls)" by simp
  show ?case
  proof (cases l)
    case (Use n f)
    then show ?thesis using Cons.prems IH by simp
  next
    case (Route m p h)
    then have h: "neutral h" using Cons.prems by simp
    show ?thesis
      unfolding Route
    proof (rule neutralI)
      fix c
      show "pool_eq c (snd (run (Route m p h # ls) c))"
        using neutralD [OF IH, of c]
          neutralD [OF h, of "c\<lparr>url_params := kv, visited := visited c @ [(m, p)]\<rparr>" for kv]
        by (auto simp add: pool_eq_def split: option.splits)
    qed
  qed
qed

lemma lease_pool:
  assumes "neutral next" and "\<not> req_db c"
  shows "releases (snd (lease E next c)) =
           (if get_connection E (store c) = None then releases c + 1 else releases c) \<and>
         leased (snd (lease E next c)) = leased c"
proof (cases "get_connection E (store c)")
  case (Some e)
  then show ?thesis using assms(2) by (simp add: lease_def try_catch_def throw_def)
next
  case None
  define c1 where "c1 = c\<lparr>req_db := True, leased := leased c + 1\<rparr>"
  obtain r1 c2 where q1: "query_plain E sql_mode c1 = (r1, c2)" by (cases "query_plain E sql_mode c1")
  obtain r2 c3 where q2: "query_plain E sql_time_zone c2 = (r2, c3)"
    by (cases "query_plain E sql_time_zone c2")
  obtain r3 c4 where q3: "next c3 = (r3, c4)" by (cases "next c3")
  have p2: "pool_eq c1 c2" using neutralD [OF quiet_query_plain [THEN quiet_neutral], of c1 E sql_mode] q1 by simp
  have p3: "pool_eq c2 c3"
    using neutralD [OF quiet_query_plain [THEN quiet_neutral], of c2 E sql_time_zone] q2 by simp
  have p4: "pool_eq c3 c4" using neutralD [OF assms(1), of c3] q3 by simp
  show ?thesis
    using None q1 q2 q3 p2 p3 p4
    by (cases r1; cases r2; cases r3)
       (simp_all add: lease_def try_catch_def and_then_def throw_def ret_def release_def c1_def [symmetric],
        simp_all add: pool_eq_def c1_def)
qed

section \<open>Unfolding the statements and reading the placeholders\<close>

lemmas io_defs = ret_def throw_def lift_def and_then_def try_catch_def res_json_def
  res_status_json_def run_query_def query_def query_plain_def

lemmas scan_defs = placeholders_def emit_def is_ident_def is_alpha_def

lemma placeholders_post_car:
  "placeholders sql_post_car = [''makeId'', ''model'', ''user_id'', ''deleted_flag'']"
  by (simp add: sql_post_car_def scan_defs)



lemmas sql_defs = sql_mode_def sql_time_zone_def sql_get_car_def sql_post_car_def sql_register_def
  sql_login_def sql_register_legacy_def sql_log_in_legacy_def sql_post_entry_def sql_put_entry_def
  sql_get_entry_def sql_delete_entry_def sql_get_user_def

lemmas test_defs = test_env_def test_store_def test_verify_def test_hash_def test_compare_def
  mem_query_def alice_claims_def entry_of_alice_def entry_of_bob_def sql_eq_def

lemmas js_defs = nullish_def lookup_def get_prop_def elem_def header_part_def split_sp_def
  err_obj_def first_row_def Let_def bind_named_def release_def new_request_def serves_def

lemma show_small: "show_int 1 = ''1''" "show_int 2 = ''2''" "show_int 3 = ''3''"
  by (simp_all add: show_int_def show_nat.simps digit_def)

lemmas eval_defs = io_defs js_defs test_defs sql_defs placeholders_def emit_def is_ident_def
  is_alpha_def show_small

section \<open>What the routes a request entered depend on\<close>

lemma routes_through:
  assumes "\<forall>l \<in> set rs. quiet_route l"
    and "\<And>mp. mp \<in> set (routes_of rs) \<Longrightarrow> P (visited c @ [mp]) (req_user c)"
    and "P (visited (snd (run rest c))) (req_user (snd (run rest c)))"
  shows "P (visited (snd (run (rs @ rest) c))) (req_user (snd (run (rs @ rest) c)))"
  using assms
proof (induction rs)
  case Nil
  then show ?case by simp
next
  case (Cons l rs)
  then obtain m p h where l: "l = Route m p h" and h: "quiet h" by (cases l) auto
  have IH: "P (visited (snd (run (rs @ rest) c))) (req_user (snd (run (rs @ rest) c)))"
  proof (rule Cons.IH)
    show "\<forall>l \<in> set rs. quiet_route l" using Cons.prems(1) by simp
    show "P (visited c @ [mp]) (req_user c)" if "mp \<in> set (routes_of rs)" for mp
      using that Cons.prems(2) [of mp] by (simp add: l)
    show "P (visited (snd (run rest c))) (req_user (snd (run rest c)))" by (rule Cons.prems(3))
  qed
  show ?case
  proof (cases "serves m (meth c) \<and> match_path p (path c) \<noteq> None")
    case True
    then obtain kv where kv: "match_path p (path c) = Some kv" by auto
    let ?c = "c\<lparr>url_params := kv, visited := visited c @ [(m, p)]\<rparr>"
    have "same_req ?c (snd (h ?c))" using h by (rule quietD)
    then have "visited (snd (h ?c)) = visited c @ [(m, p)]" "req_user (snd (h ?c)) = req_user c"
      by (simp_all add: same_req_def)
    then show ?thesis using True kv Cons.prems(2) [of "(m, p)"] by (simp add: l)
  next
    case False
    then show ?thesis using IH by (auto simp add: l)
  qed
qed

lemma header_part_nil: "header_part [] 0 \<noteq> JStr ''Bearer''"
  by (simp add: header_part_def split_sp_def elem_def)

lemma gate_through:
  assumes "P (visited c) (req_user c)"
    and "\<And>claims c1. token_verified E (auth_header c) claims \<Longrightarrow> c1 = c\<lparr>req_user := claims\<rparr> \<Longrightarrow>
           P (visited (snd (next c1))) (req_user (snd (next c1)))"
  shows "P (visited (snd (verifyJwt E next c))) (req_user (snd (verifyJwt E next c)))"
proof (cases "\<exists>claims. token_verified E (auth_header c) claims")
  case False
  then have "visited (snd (verifyJwt E next c)) = visited c \<and>
             req_user (snd (verifyJwt E next c)) = req_user c"
    by (auto simp add: verifyJwt_def token_verified_def try_catch_def and_then_def lift_def
        res_status_json_def res_json_def Let_def header_part_nil split: option.splits sum.splits)
  then show ?thesis using assms(1) by simp
next
  case True
  then obtain claims where v: "token_verified E (auth_header c) claims" by auto
  let ?c1 = "c\<lparr>req_user := claims\<rparr>"
  obtain r c2 where n: "next ?c1 = (r, c2)" by (cases "next ?c1")
  have "visited (snd (verifyJwt E next c)) = visited c2 \<and>
        req_user (snd (verifyJwt E next c)) = req_user c2"
    using v n
    by (cases r)
       (auto simp add: verifyJwt_def token_verified_def try_catch_def and_then_def lift_def
        res_status_json_def res_json_def Let_def header_part_nil
        split: option.splits sum.splits if_splits)
  then show ?thesis using assms(2) [OF v refl] n by simp
qed

lemma lease_through:
  assumes "P (visited c) (req_user c)"
    and "\<And>c1. auth_header c1 = auth_header c \<Longrightarrow> visited c1 = visited c \<Longrightarrow>
           req_user c1 = req_user c \<Longrightarrow> P (visited (snd (next c1))) (req_user (snd (next c1)))"
  shows "P (visited (snd (lease E next c))) (req_user (snd (lease E next c)))"
proof (cases "get_connection E (store c)")
  case (Some e)
  then show ?thesis using assms(1) by (simp add: lease_def try_catch_def throw_def release_def)
next
  case None
  define c1 where "c1 = c\<lparr>req_db := True, leased := leased c + 1\<rparr>"
  obtain r1 c2 where q1: "query_plain E sql_mode c1 = (r1, c2)" by (cases "query_plain E sql_mode c1")
  obtain r2 c3 where q2: "query_plain E sql_time_zone c2 = (r2, c3)"
    by (cases "query_plain E sql_time_zone c2")
  obtain r3 c4 where q3: "next c3 = (r3, c4)" by (cases "next c3")
  have p2: "same_req c1 c2" using quietD [OF quiet_query_plain, of c1 E sql_mode] q1 by simp
  have p3: "same_req c2 c3" using quietD [OF quiet_query_plain, of c2 E sql_time_zone] q2 by simp
  have c3: "auth_header c3 = auth_header c" "visited c3 = visited c" "req_user c3 = req_user c"
    using p2 p3 by (simp_all add: same_req_def c1_def)
  have c2: "visited c2 = visited c" "req_user c2 = req_user c"
    using p2 by (simp_all add: same_req_def c1_def)
  have P4: "P (visited c4) (req_user c4)" using assms(2) [OF c3] q3 by simp
  show ?thesis
    using None q1 q2 q3 P4 assms(1) c2 c3
    by (cases r1; cases r2; cases r3)
       (simp_all add: lease_def try_catch_def and_then_def throw_def ret_def release_def
          c1_def [symmetric])
qed

lemma new_request_fields:
  "visited (new_request m p h b l r x) = []"
  "auth_header (new_request m p h b l r x) = h"
  "req_user (new_request m p h b l r x) = JUndefined"
  by (simp_all add: new_request_def)

lemma visited_journal:
  assumes "mp \<in> set (visited (snd (run (app_journal E) (new_request m p h b l r x))))"
  shows "mp \<in> set (routes_before_gate (app_journal E)) \<or>
         (mp \<in> set (routes_after_gate (app_journal E)) \<and>
          token_verified E h (req_user (snd (run (app_journal E) (new_request m p h b l r x)))))"
proof -
  define P where "P = (\<lambda>vs u. \<forall>mp \<in> set vs.
     mp \<in> set (routes_before_gate (app_journal E)) \<or>
     (mp \<in> set (routes_after_gate (app_journal E)) \<and> token_verified E h u))"
  define pub where "pub = [Route POST [Lit ''register''] (post_register E),
      Route POST [Lit ''login''] (post_login E)]"
  define prot where "prot = [Route POST [Lit ''entry_table''] (post_entry_table E),
      Route PUT [Lit ''entry_table''] (put_entry_table E),
      Route GET [Lit ''entry_table''] (get_entry_table E),
      Route DELETE [Lit ''entry_table'', Param ''id''] (delete_entry_table E),
      Route GET [Lit ''user_table''] (get_user_table E)]"
  let ?c0 = "new_request m p h b l r x"
  have app: "run (app_journal E) = lease E (run (pub @ Use ''verifyJwt'' (verifyJwt E) # prot @ []))"
    by (simp add: app_journal_def pub_def prot_def)
  have before: "routes_before_gate (app_journal E) = routes_of pub"
    and after: "routes_after_gate (app_journal E) = routes_of prot"
    by (simp_all add: app_journal_def pub_def prot_def)
  have qpub: "\<forall>l \<in> set pub. quiet_route l" by (simp add: pub_def quiet_handlers)
  have qprot: "\<forall>l \<in> set prot. quiet_route l" by (simp add: prot_def quiet_handlers)
  have "P (visited (snd (lease E (run (pub @ Use ''verifyJwt'' (verifyJwt E) # prot @ [])) ?c0)))
          (req_user (snd (lease E (run (pub @ Use ''verifyJwt'' (verifyJwt E) # prot @ [])) ?c0)))"
  proof (rule lease_through)
    show "P (visited ?c0) (req_user ?c0)" by (simp add: P_def new_request_fields)
  next
    fix c1 :: "'a ctx"
    assume c1: "auth_header c1 = auth_header ?c0" "visited c1 = visited ?c0" "req_user c1 = req_user ?c0"
    show "P (visited (snd (run (pub @ Use ''verifyJwt'' (verifyJwt E) # prot @ []) c1)))
            (req_user (snd (run (pub @ Use ''verifyJwt'' (verifyJwt E) # prot @ []) c1)))"
    proof (rule routes_through [OF qpub])
      fix mp assume "mp \<in> set (routes_of pub)"
      then show "P (visited c1 @ [mp]) (req_user c1)"
        by (simp add: P_def c1 new_request_fields before)
    next
      have "P (visited (snd (verifyJwt E (run (prot @ [])) c1)))
              (req_user (snd (verifyJwt E (run (prot @ [])) c1)))"
      proof (rule gate_through)
        show "P (visited c1) (req_user c1)" by (simp add: P_def c1 new_request_fields)
      next
        fix claims and c2 :: "'a ctx"
        assume v: "token_verified E (auth_header c1) claims" and c2: "c2 = c1\<lparr>req_user := claims\<rparr>"
        show "P (visited (snd (run (prot @ []) c2))) (req_user (snd (run (prot @ []) c2)))"
        proof (rule routes_through [OF qprot])
          fix mp assume "mp \<in> set (routes_of prot)"
          then show "P (visited c2 @ [mp]) (req_user c2)"
            using v by (simp add: P_def c1 c2 new_request_fields after)
        next
          show "P (visited (snd (run [] c2))) (req_user (snd (run [] c2)))"
            by (simp add: ret_def P_def c1 c2 new_request_fields)
        qed
      qed
      then show "P (visited (snd (run (Use ''verifyJwt'' (verifyJwt E) # prot @ []) c1)))
              (req_user (snd (run (Use ''verifyJwt'' (verifyJwt E) # prot @ []) c1)))"
        by simp
    qed
  qed
  then show ?thesis using assms unfolding P_def app by blast
qed

lemma visited_index:
  assumes "mp \<in> set (visited (snd (run (app_index E) (new_request m p h b l r x))))"
  shows "mp \<in> set (routes_before_gate (app_index E))"
proof -
  define P where "P = (\<lambda>vs (u :: jsval). \<forall>mp \<in> set vs. mp \<in> set (routes_before_gate (app_index E)))"
  define pub where "pub = [Route DELETE [Lit ''car'', Param ''id''] delete_car,
      Route GET [Lit ''car''] (get_car E), Route POST [Lit ''car''] (post_car E),
      Route POST [Lit ''register''] (post_register E), Route POST [Lit ''login''] (post_login E)]"
  let ?c0 = "new_request m p h b l r x"
  have app: "run (app_index E) = lease E (run (pub @ [Use ''verifyJwt'' (verifyJwt E)]))"
    by (simp add: app_index_def pub_def)
  have before: "routes_before_gate (app_index E) = routes_of pub"
    by (simp add: app_index_def pub_def)
  have qpub: "\<forall>l \<in> set pub. quiet_route l" by (simp add: pub_def quiet_handlers)
  have "P (visited (snd (lease E (run (pub @ [Use ''verifyJwt'' (verifyJwt E)])) ?c0)))
          (req_user (snd (lease E (run (pub @ [Use ''verifyJwt'' (verifyJwt E)])) ?c0)))"
  proof (rule lease_through)
    show "P (visited ?c0) (req_user ?c0)" by (simp add: P_def new_request_fields)
  next
    fix c1 :: "'a ctx"
    assume c1: "auth_header c1 = auth_header ?c0" "visited c1 = visited ?c0" "req_user c1 = req_user ?c0"
    show "P (visited (snd (run (pub @ [Use ''verifyJwt'' (verifyJwt E)]) c1)))
            (req_user (snd (run (pub @ [Use ''verifyJwt'' (verifyJwt E)]) c1)))"
    proof (rule routes_through [OF qpub])
      fix mp assume "mp \<in> set (routes_of pub)"
      then show "P (visited c1 @ [mp]) (req_user c1)"
        by (simp add: P_def c1 new_request_fields before)
    next
      have "P (visited (snd (verifyJwt E (run []) c1))) (req_user (snd (verifyJwt E (run []) c1)))"
      proof (rule gate_through)
        show "P (visited c1) (req_user c1)" by (simp add: P_def c1 new_request_fields)
      next
        fix claims and c2 :: "'a ctx"
        assume "c2 = c1\<lparr>req_user := claims\<rparr>"
        then show "P (visited (snd (run [] c2))) (req_user (snd (run [] c2)))"
          by (simp add: ret_def P_def c1 new_request_fields)
      qed
      then show "P (visited (snd (run [Use ''verifyJwt'' (verifyJwt E)] c1)))
              (req_user (snd (run [Use ''verifyJwt'' (verifyJwt E)] c1)))"
        by simp
    qed
  qed
  then show ?thesis using assms unfolding P_def app by blast
qed

lemma legacy_gate_view:
  "visited (snd (verifyJwt_legacy E (ret ()) c)) = visited c"
  by (auto simp add: verifyJwt_legacy_def and_then_def try_catch_def lift_def ret_def throw_def
      res_json_def Let_def split: option.splits sum.splits prod.splits if_splits)

lemma visited_legacy:
  assumes "mp \<in> set (visited (snd (run (app_legacy E) (new_request m p h b l r x))))"
  shows "mp \<in> set (routes_before_gate (app_legacy E))"
proof -
  define P where "P = (\<lambda>vs (u :: jsval). \<forall>mp \<in> set vs. mp \<in> set (routes_before_gate (app_legacy E)))"
  define pub where "pub = [Route DELETE [Lit ''car'', Param ''id''] delete_car,
      Route GET [Lit ''car''] (get_car E), Route POST [Lit ''car''] (post_car E),
      Route POST [Lit ''register''] (post_register_legacy E),
      Route POST [Lit ''log-in''] (post_log_in_legacy E)]"
  let ?c0 = "new_request m p h b l r x"
  have app: "run (app_legacy E) = lease E (run (pub @ [Use ''verifyJwt'' (verifyJwt_legacy E)]))"
    by (simp add: app_legacy_def pub_def)
  have before: "routes_before_gate (app_legacy E) = routes_of pub"
    by (simp add: app_legacy_def pub_def)
  have qpub: "\<forall>l \<in> set pub. quiet_route l" by (simp add: pub_def quiet_handlers)
  have "P (visited (snd (lease E (run (pub @ [Use ''verifyJwt'' (verifyJwt_legacy E)])) ?c0)))
          (req_user (snd (lease E (run (pub @ [Use ''verifyJwt'' (verifyJwt_legacy E)])) ?c0)))"
  proof (rule lease_through)
    show "P (visited ?c0) (req_user ?c0)" by (simp add: P_def new_request_fields)
  next
    fix c1 :: "'a ctx"
    assume c1: "auth_header c1 = auth_header ?c0" "visited c1 = visited ?c0" "req_user c1 = req_user ?c0"
    show "P (visited (snd (run (pub @ [Use ''verifyJwt'' (verifyJwt_legacy E)]) c1)))
            (req_user (snd (run (pub @ [Use ''verifyJwt'' (verifyJwt_legacy E)]) c1)))"
    proof (rule routes_through [OF qpub])
      fix mp assume "mp \<in> set (routes_of pub)"
      then show "P (visited c1 @ [mp]) (req_user c1)"
        by (simp add: P_def c1 new_request_fields before)
    next
      show "P (visited (snd (run [Use ''verifyJwt'' (verifyJwt_legacy E)] c1)))
              (req_user (snd (run [Use ''verifyJwt'' (verifyJwt_legacy E)] c1)))"
        by (simp add: legacy_gate_view P_def c1 new_request_fields)
    qed
  qed
  then show ?thesis using assms unfolding P_def app by blast
qed

section \<open>The leased connection is released exactly once\<close>

lemma tail_index:
  "\<forall>l \<in> set (tl (app_index E)). neutral_layer l"
  by (simp add: app_index_def quiet_handlers [THEN quiet_neutral] neutral_verifyJwt)

lemma tail_journal:
  "\<forall>l \<in> set (tl (app_journal E)). neutral_layer l"
  by (simp add: app_journal_def quiet_handlers [THEN quiet_neutral] neutral_verifyJwt)

lemma tail_legacy:
  "\<forall>l \<in> set (tl (app_legacy E)). neutral_layer l"
  by (simp add: app_legacy_def quiet_handlers [THEN quiet_neutral] neutral_verifyJwt_legacy)

lemma run_app:
  "run (app_index E) = lease E (run (tl (app_index E)))"
  "run (app_journal E) = lease E (run (tl (app_journal E)))"
  "run (app_legacy E) = lease E (run (tl (app_legacy E)))"
  by (simp_all add: app_index_def app_journal_def app_legacy_def)

text \<open>
  Claim C1.  In each of the three applications, a request for which
  \<^verbatim>\<open>pool.getConnection()\<close> hands out a connection ends with exactly one more
  \<^verbatim>\<open>release()\<close> than it started with and with the pool's outstanding leases back at
  their value before the request.  The statement is about the state the request leaves,
  whatever the result: the rest of the stack returning, a handler throwing, or the gate
  rejecting.
\<close>

theorem lease_released_exactly_once:
  assumes "app = app_index E \<or> app = app_journal E \<or> app = app_legacy E"
    and "get_connection E x = None"
  shows "releases (snd (run app (new_request m p h b l r x))) = r + 1 \<and>
         leased (snd (run app (new_request m p h b l r x))) = l"
proof -
  have fresh: "\<not> req_db (new_request m p h b l r x)" "store (new_request m p h b l r x) = x"
    "releases (new_request m p h b l r x) = r" "leased (new_request m p h b l r x) = l"
    by (simp_all add: new_request_def)
  from assms(1) obtain rest where app: "run app = lease E (run rest)" and rest: "\<forall>l \<in> set rest. neutral_layer l"
    using run_app tail_index tail_journal tail_legacy by metis
  have "neutral (run rest)" using rest by (rule neutral_run)
  from lease_pool [OF this fresh(1), of E] show ?thesis
    using assms(2) by (simp add: app fresh)
qed

theorem lease_released_exactly_once_witness:
  "get_connection test_env test_store = None \<and>
   releases (snd (run (app_journal test_env)
     (new_request GET [''entry_table''] (Some ''Bearer expired'') (JObj []) 0 0 test_store))) = 1 \<and>
   leased (snd (run (app_journal test_env)
     (new_request GET [''entry_table''] (Some ''Bearer expired'') (JObj []) 0 0 test_store))) = 0"
  using lease_released_exactly_once [of "app_journal test_env" test_env test_store GET
      "[''entry_table'']" "Some ''Bearer expired''" "JObj []" 0 0]
  by (simp add: test_env_def)

text \<open>When no connection is handed out, nothing runs and nothing is released.\<close>

lemma lease_not_acquired:
  assumes "app = app_index E \<or> app = app_journal E \<or> app = app_legacy E"
    and "get_connection E x = Some e"
  shows "run app (new_request m p h b l r x) = (Inl e, new_request m p h b l r x)"
  using assms
  by (auto simp add: run_app lease_def try_catch_def throw_def new_request_def)

text \<open>
  The three ways out, run: the handler returns, the handler throws (the error leaves the
  middleware after the release), the gate rejects.
\<close>

lemma lease_exit_paths:
  "run (app_index test_env) (new_request GET [''car''] None (JObj []) 0 0 test_store) =
     (Inr (), (new_request GET [''car''] None (JObj []) 0 0 test_store)
        \<lparr>req_db := True, releases := 1, sent := Some (200, JObj [(''cars'', JArr [])]),
         visited := [(GET, [Lit ''car''])]\<rparr>)"
  "run (app_index broken_env) (new_request GET [''car''] None (JObj []) 0 0 test_store) =
     (Inl (JsError ''Error'' ''ER_NO_SUCH_TABLE''),
      (new_request GET [''car''] None (JObj []) 0 0 test_store)
        \<lparr>req_db := True, releases := 1, visited := [(GET, [Lit ''car''])]\<rparr>)"
  "run (app_journal test_env) (new_request GET [''entry_table''] None (JObj []) 0 0 test_store) =
     (Inr (), (new_request GET [''entry_table''] None (JObj []) 0 0 test_store)
        \<lparr>req_db := True, releases := 1, status_code := 401,
         sent := Some (401, err_obj ''Invalid authorization, no authorization header'')\<rparr>)"
  by (simp_all add: app_index_def app_journal_def lease_def verifyJwt_def get_car_def broken_env_def
      eval_defs)

section \<open>Protected handlers run behind the gate\<close>

text \<open>
  Claim C2.  In each of the three applications, when the handler of a route registered
  after the gate was entered, the request presented a bearer token that \<^verbatim>\<open>jwt.verify\<close>
  accepted, and \<^verbatim>\<open>req.user\<close> is the claims it returned.  So a request with no
  \<^verbatim>\<open>Authorization\<close> header, or with a token that fails verification, enters no protected
  handler.  (\<^verbatim>\<open>index.cjs\<close> and \<^verbatim>\<open>part_001\<close> register no route after their gate.)
\<close>

theorem protected_handler_needs_verified_token:
  assumes "app = app_index E \<or> app = app_journal E \<or> app = app_legacy E"
    and "route \<in> set (routes_after_gate app)"
    and "route \<in> set (visited (snd (run app (new_request m p h b l r x))))"
  shows "token_verified E h (req_user (snd (run app (new_request m p h b l r x))))"
proof -
  have no_index: "routes_after_gate (app_index E) = []"
    and no_legacy: "routes_after_gate (app_legacy E) = []"
    by (simp_all add: app_index_def app_legacy_def)
  have disjoint: "set (routes_before_gate (app_journal E)) \<inter> set (routes_after_gate (app_journal E)) = {}"
    by (simp add: app_journal_def)
  from assms(1,2) have app: "app = app_journal E" by (auto simp add: no_index no_legacy)
  from visited_journal [of route E m p h b l r x] assms(2,3) disjoint show ?thesis
    unfolding app by blast
qed

lemma run_get_entries_alice:
  "snd (run (app_journal test_env)
     (new_request GET [''entry_table''] (Some ''Bearer alice'') (JObj []) 0 0 test_store)) =
   (new_request GET [''entry_table''] (Some ''Bearer alice'') (JObj []) 0 0 test_store)
     \<lparr>req_user := alice_claims, req_db := True, releases := 1,
      sent := Some (200, JObj [(''entries'', JArr [entry_of_alice])]),
      visited := [(GET, [Lit ''entry_table''])]\<rparr>"
  by (simp add: app_journal_def lease_def verifyJwt_def get_entry_table_def io_defs js_defs
      test_defs sql_defs placeholders_def emit_def is_ident_def is_alpha_def show_small)

theorem protected_handler_needs_verified_token_witness:
  "(GET, [Lit ''entry_table'']) \<in> set (routes_after_gate (app_journal test_env)) \<and>
   (GET, [Lit ''entry_table'']) \<in> set (visited (snd (run (app_journal test_env)
      (new_request GET [''entry_table''] (Some ''Bearer alice'') (JObj []) 0 0 test_store)))) \<and>
   token_verified test_env (Some ''Bearer alice'')
     (req_user (snd (run (app_journal test_env)
        (new_request GET [''entry_table''] (Some ''Bearer alice'') (JObj []) 0 0 test_store))))"
proof -
  have a: "(GET, [Lit ''entry_table'']) \<in> set (routes_after_gate (app_journal test_env))"
    by (simp add: app_journal_def)
  have b: "(GET, [Lit ''entry_table'']) \<in> set (visited (snd (run (app_journal test_env)
      (new_request GET [''entry_table''] (Some ''Bearer alice'') (JObj []) 0 0 test_store))))"
    by (simp add: run_get_entries_alice)
  from protected_handler_needs_verified_token [of "app_journal test_env" test_env, OF _ a b] a b
  show ?thesis by simp
qed

section \<open>The routes in front of the gate\<close>

text \<open>
  Claim C4, amended.  \<^verbatim>\<open>part_000\<close> registers register and login before the gate;
  \<^verbatim>\<open>index.cjs\<close> and \<^verbatim>\<open>part_001\<close> register the three car routes before it as well.  A
  request that presents no bearer token that verifies enters none but the routes
  registered before the gate.
\<close>

theorem routes_before_the_gate:
  "routes_before_gate (app_index E) =
     [(DELETE, [Lit ''car'', Param ''id'']), (GET, [Lit ''car'']), (POST, [Lit ''car'']),
      (POST, [Lit ''register'']), (POST, [Lit ''login''])] \<and>
   routes_before_gate (app_journal E) = [(POST, [Lit ''register'']), (POST, [Lit ''login''])] \<and>
   routes_before_gate (app_legacy E) =
     [(DELETE, [Lit ''car'', Param ''id'']), (GET, [Lit ''car'']), (POST, [Lit ''car'']),
      (POST, [Lit ''register'']), (POST, [Lit ''log-in''])] \<and>
   ((app = app_index E \<or> app = app_journal E \<or> app = app_legacy E) \<and>
    (\<forall>claims. \<not> token_verified E h claims) \<longrightarrow>
      set (visited (snd (run app (new_request m p h b l r x)))) \<subseteq> set (routes_before_gate app))"
proof -
  have "set (visited (snd (run app (new_request m p h b l r x)))) \<subseteq> set (routes_before_gate app)"
    if app: "app = app_index E \<or> app = app_journal E \<or> app = app_legacy E"
      and no: "\<forall>claims. \<not> token_verified E h claims"
  proof
    fix mp assume mp: "mp \<in> set (visited (snd (run app (new_request m p h b l r x))))"
    from app show "mp \<in> set (routes_before_gate app)"
    proof (elim disjE)
      assume "app = app_index E"
      then show ?thesis using visited_index [of mp E m p h b l r x] mp by simp
    next
      assume "app = app_journal E"
      then show ?thesis using visited_journal [of mp E m p h b l r x] mp no by auto
    next
      assume "app = app_legacy E"
      then show ?thesis using visited_legacy [of mp E m p h b l r x] mp by simp
    qed
  qed
  then show ?thesis by (simp add: app_index_def app_journal_def app_legacy_def)
qed

lemma run_get_car_no_header:
  "snd (run (app_index test_env) (new_request GET [''car''] None (JObj []) 0 0 test_store)) =
   (new_request GET [''car''] None (JObj []) 0 0 test_store)
     \<lparr>req_db := True, releases := 1, sent := Some (200, JObj [(''cars'', JArr [])]),
      visited := [(GET, [Lit ''car''])]\<rparr>"
  by (simp add: app_index_def lease_def get_car_def eval_defs)

theorem routes_before_the_gate_witness:
  "(\<forall>claims. \<not> token_verified test_env None claims) \<and>
   set (visited (snd (run (app_index test_env)
      (new_request GET [''car''] None (JObj []) 0 0 test_store)))) \<subseteq>
     set (routes_before_gate (app_index test_env))"
proof -
  have no: "\<forall>claims. \<not> token_verified test_env None claims" by (simp add: token_verified_def)
  from routes_before_the_gate [of test_env "app_index test_env" None GET "[''car'']" "JObj []" 0 0 test_store]
  show ?thesis using no by blast
qed

text \<open>
  Claim C4 as stated fails: in \<^verbatim>\<open>index.cjs\<close>, \<^verbatim>\<open>GET /car\<close> with no \<^verbatim>\<open>Authorization\<close> header
  is served by its handler.
\<close>

theorem car_route_without_token:
  "visited (snd (run (app_index test_env)
      (new_request GET [''car''] None (JObj []) 0 0 test_store))) = [(GET, [Lit ''car''])] \<and>
   sent (snd (run (app_index test_env)
      (new_request GET [''car''] None (JObj []) 0 0 test_store))) =
     Some (200, JObj [(''cars'', JArr [])])"
  by (simp add: run_get_car_no_header)

section \<open>The shape of the header\<close>

lemma header_part_split:
  "split_sp hdr = s0 # s1 # rest \<Longrightarrow> header_part hdr 0 = JStr s0 \<and> header_part hdr (Suc 0) = JStr s1"
  "split_sp hdr = [s0] \<Longrightarrow> header_part hdr 0 = JStr s0 \<and> header_part hdr (Suc 0) = JUndefined"
  by (simp_all add: header_part_def elem_def)

lemma split_sp_not_nil: "split_sp hdr \<noteq> []"
  unfolding split_sp_def
proof -
  have "split_from seg s \<noteq> []" for seg s
    by (induction s arbitrary: seg) auto
  then show "split_from [] hdr \<noteq> []" .
qed

text \<open>
  Claim C7, amended (the gate of \<^verbatim>\<open>index.cjs\<close> and \<^verbatim>\<open>part_000\<close>).  Of a non-empty header
  the gate reads the first two space-delimited segments.  When the first is \<^verbatim>\<open>Bearer\<close> and
  the second is not empty, the second goes to \<^verbatim>\<open>jwt.verify\<close>, and a token that verifies is
  accepted, whatever segments follow.  Every other header is answered with the scheme
  mismatch, status 401.
\<close>

theorem gate_header_shape:
  assumes "auth_header c = Some hdr" and "hdr \<noteq> []" and "sent c = None"
  shows "case split_sp hdr of
           s0 # s1 # rest \<Rightarrow>
             if s0 = ''Bearer'' \<and> s1 \<noteq> [] then
               (\<forall>claims. jwt_verify E (JStr s1) = Inr claims \<longrightarrow>
                  verifyJwt E (ret ()) c = (Inr (), c\<lparr>req_user := claims\<rparr>))
             else verifyJwt E next c = scheme_mismatch c
         | _ \<Rightarrow> verifyJwt E next c = scheme_mismatch c"
proof (cases "split_sp hdr")
  case Nil
  then show ?thesis using split_sp_not_nil by blast
next
  case (Cons s0 ss)
  show ?thesis
  proof (cases ss)
    case Nil
    then show ?thesis
      using assms Cons header_part_split(2) [of hdr s0]
      by (simp add: verifyJwt_def try_catch_def res_status_json_def res_json_def scheme_mismatch_def)
  next
    case (Cons s1 rest)
    then show ?thesis
      using assms \<open>split_sp hdr = s0 # ss\<close> header_part_split(1) [of hdr s0 s1 rest]
      by (simp add: verifyJwt_def try_catch_def and_then_def lift_def ret_def res_status_json_def
          res_json_def scheme_mismatch_def)
  qed
qed

theorem gate_header_shape_witness:
  "verifyJwt test_env (ret ())
     (new_request GET [''entry_table''] (Some ''Bearer alice extra'') (JObj []) 0 0 test_store) =
   (Inr (), (new_request GET [''entry_table''] (Some ''Bearer alice extra'') (JObj []) 0 0 test_store)
              \<lparr>req_user := alice_claims\<rparr>)"
  using gate_header_shape [of "new_request GET [''entry_table''] (Some ''Bearer alice extra'') (JObj []) 0 0 test_store"
      "''Bearer alice extra''" test_env "ret ()"]
  by (simp add: new_request_def split_sp_def test_env_def test_verify_def)

text \<open>
  Claim C7 as stated fails: a header with a third segment after the credential is
  accepted, and the protected handler answers.
\<close>

theorem extra_segments_accepted:
  "sent (snd (run (app_journal test_env)
      (new_request GET [''entry_table''] (Some ''Bearer alice extra'') (JObj []) 0 0 test_store))) =
     Some (200, JObj [(''entries'', JArr [entry_of_alice])]) \<and>
   visited (snd (run (app_journal test_env)
      (new_request GET [''entry_table''] (Some ''Bearer alice extra'') (JObj []) 0 0 test_store))) =
     [(GET, [Lit ''entry_table''])]"
  by (simp add: app_journal_def lease_def verifyJwt_def get_entry_table_def eval_defs)

section \<open>The insert of \<^verbatim>\<open>POST /car\<close>\<close>

lemma bind_post_car:
  "bind_named sql_post_car (car_params b) =
     [JUndefined, field b ''model'', field b ''user_id'', field b ''deleted_flag'']"
  by (simp add: bind_named_def placeholders_post_car car_params_def lookup_def)

text \<open>
  Claim C10.  The statement of \<^verbatim>\<open>POST /car\<close> names the placeholder \<^verbatim>\<open>:makeId\<close>; the object
  bound to it has the key \<^verbatim>\<open>make_id\<close> and no key \<^verbatim>\<open>makeId\<close>.  The value bound for
  \<^verbatim>\<open>:makeId\<close> is \<^verbatim>\<open>undefined\<close> whatever the body holds, so the store the request leaves is
  the one the insert gives with \<^verbatim>\<open>undefined\<close>, the model, the user id and the deleted flag:
  it does not depend on the \<^verbatim>\<open>make_id\<close> the client sent.
\<close>

theorem post_car_makeId_never_bound:
  "placeholders sql_post_car = [''makeId'', ''model'', ''user_id'', ''deleted_flag''] \<and>
   map fst (own_entries (car_params b)) = [''make_id'', ''model'', ''user_id'', ''deleted_flag''] \<and>
   bind_named sql_post_car (car_params b) =
     [JUndefined, field b ''model'', field b ''user_id'', field b ''deleted_flag''] \<and>
   store (snd (post_car E c)) =
     (if nullish (body c) then store c
      else snd (db_query E (store c) sql_post_car
             [JUndefined, field (body c) ''model'', field (body c) ''user_id'',
              field (body c) ''deleted_flag'']))"
proof -
  have "store (snd (post_car E c)) =
     (if nullish (body c) then store c
      else snd (db_query E (store c) sql_post_car
             [JUndefined, field (body c) ''model'', field (body c) ''user_id'',
              field (body c) ''deleted_flag'']))"
    by (auto simp add: post_car_def io_defs bind_post_car split: prod.splits sum.splits option.splits)
  then show ?thesis
    by (simp add: placeholders_post_car bind_post_car) (simp add: car_params_def)
qed

section \<open>The token issued at registration\<close>












section \<open>How the gate answers a token that fails verification\<close>

text \<open>
  The gate of \<^verbatim>\<open>index.cjs\<close> and \<^verbatim>\<open>part_000\<close> answers by the name of the error that
  \<^verbatim>\<open>jwt.verify\<close> threw: 401 \<^verbatim>\<open>JWT expired\<close> for a \<^verbatim>\<open>TokenExpiredError\<close>, 401
  \<^verbatim>\<open>Invalid JWT token\<close> for a \<^verbatim>\<open>JsonWebTokenError\<close>, 500 for anything else.
\<close>

lemma gate_classifies_failures:
  assumes "auth_header c = Some hdr" and "header_part hdr 0 = JStr ''Bearer''"
    and "truthy (header_part hdr 1)" and "jwt_verify E (header_part hdr 1) = Inl e"
    and "sent c = None"
  shows "verifyJwt E next c =
           (if err_name e = JStr ''TokenExpiredError'' then
              (Inr (), c\<lparr>status_code := 401, sent := Some (401, err_obj ''JWT expired'')\<rparr>)
            else if err_name e = JStr ''JsonWebTokenError'' then
              (Inr (), c\<lparr>status_code := 401, sent := Some (401, err_obj ''Invalid JWT token'')\<rparr>)
            else
              (Inr (), c\<lparr>status_code := 500, sent := Some (500, err_obj ''Internal Server Error'')\<rparr>))"
proof -
  have "hdr \<noteq> []" using assms(2) header_part_nil by auto
  then show ?thesis
    using assms
    by (simp add: verifyJwt_def try_catch_def and_then_def lift_def res_status_json_def res_json_def)
qed

lemma gate_classifies_examples:
  "sent (snd (run (app_journal test_env)
     (new_request GET [''entry_table''] (Some ''Bearer expired'') (JObj []) 0 0 test_store))) =
     Some (401, err_obj ''JWT expired'')"
  "sent (snd (run (app_journal test_env)
     (new_request GET [''entry_table''] (Some ''Bearer garbage'') (JObj []) 0 0 test_store))) =
     Some (401, err_obj ''Invalid JWT token'')"
  "sent (snd (run (app_journal test_env)
     (new_request GET [''entry_table''] (Some ''Bearer early'') (JObj []) 0 0 test_store))) =
     Some (500, err_obj ''Internal Server Error'')"
  by (simp_all add: app_journal_def lease_def verifyJwt_def eval_defs)

text \<open>
  Claim C5 on \<^verbatim>\<open>part_001\<close>.  Its gate sends no response for an expired token: it writes
  \<^verbatim>\<open>req.status\<close> and \<^verbatim>\<open>req.body\<close>, emits an event nobody listens to, and calls
  \<^verbatim>\<open>next()\<close>, so the request passes the gate unanswered.  For a malformed token it
  throws the bare message.  Neither is answered with a 401.
\<close>

theorem legacy_gate_passes_failed_token:
  "run (app_legacy test_env)
     (new_request GET [''entry_table''] (Some ''Bearer expired'') (JObj []) 0 0 test_store) =
   (Inr (),
    (new_request GET [''entry_table''] (Some ''Bearer expired'') (JObj []) 0 0 test_store)
      \<lparr>body := JStr ''jwt expired'', req_db := True, req_status := JNum 500, releases := 1\<rparr>) \<and>
   run (app_legacy test_env)
     (new_request GET [''entry_table''] (Some ''Bearer garbage'') (JObj []) 0 0 test_store) =
   (Inl (Thrown (JStr ''jwt malformed'')),
    (new_request GET [''entry_table''] (Some ''Bearer garbage'') (JObj []) 0 0 test_store)
      \<lparr>req_db := True, releases := 1\<rparr>)"
  by (simp add: app_legacy_def lease_def verifyJwt_legacy_def eval_defs toUpperCase_def upper_char_def)

section \<open>Login\<close>

text \<open>
  Login of \<^verbatim>\<open>index.cjs\<close> and \<^verbatim>\<open>part_000\<close>: 404 when the lookup returns no row, 401 when
  \<^verbatim>\<open>bcrypt.compare\<close> returns false, and a token signed for the row's \<^verbatim>\<open>UserID\<close> and
  \<^verbatim>\<open>Username\<close> when it returns true; a token is answered in no other case.
\<close>

lemma placeholders_login: "placeholders sql_login = [''username'']"
  by (simp add: sql_login_def placeholders_def emit_def is_ident_def is_alpha_def)

lemma login_not_found:
  assumes "sent c = None" and "\<not> nullish (body c)"
    and "db_query E (store c) sql_login [field (body c) ''username''] = (Inr (JArr []), x)"
  shows "post_login E c =
           (Inr (), c\<lparr>store := x, status_code := 404,
                       sent := Some (404, err_obj ''Username not found'')\<rparr>)"
  using assms
  by (simp add: post_login_def io_defs bind_named_def placeholders_login lookup_def first_row_def
      elem_def)

lemma login_wrong_password:
  assumes "sent c = None" and "\<not> nullish (body c)"
    and "db_query E (store c) sql_login [field (body c) ''username''] = (Inr (JArr (user # others)), x)"
    and "truthy user"
    and "bcrypt_compare E (field (body c) ''password'') (to_string (field user ''Password'')) = Inr False"
  shows "post_login E c =
           (Inr (), c\<lparr>store := x, status_code := 401,
                       sent := Some (401, JObj [(''err'', JStr ''Password is incorrect''),
                                                (''success'', JBool False)])\<rparr>)"
  using assms
  by (simp add: post_login_def io_defs bind_named_def placeholders_login lookup_def first_row_def
      elem_def)

lemma login_success:
  assumes "sent c = None" and "status_code c = 200" and "\<not> nullish (body c)"
    and "db_query E (store c) sql_login [field (body c) ''username''] = (Inr (JArr (user # others)), x)"
    and "truthy user"
    and "bcrypt_compare E (field (body c) ''password'') (to_string (field user ''Password'')) = Inr True"
    and "jwt_sign E (JObj [(''userId'', field user ''UserID''),
                           (''username'', field user ''Username'')]) = Inr t"
  shows "post_login E c =
           (Inr (), c\<lparr>store := x,
                       sent := Some (200, JObj [(''jwt'', JStr t), (''success'', JBool True)])\<rparr>)"
  using assms
  by (simp add: post_login_def io_defs bind_named_def placeholders_login lookup_def first_row_def
      elem_def)

lemma login_token_only_after_match:
  assumes "sent c = None"
    and "sent (snd (post_login E c)) = Some (n, JObj [(''jwt'', JStr t), (''success'', JBool True)])"
  shows "\<exists>rows x.
           db_query E (store c) sql_login [field (body c) ''username''] = (Inr (JArr rows), x) \<and>
           truthy (elem rows 0) \<and>
           bcrypt_compare E (field (body c) ''password'')
             (to_string (field (elem rows 0) ''Password'')) = Inr True \<and>
           jwt_sign E (JObj [(''userId'', field (elem rows 0) ''UserID''),
                             (''username'', field (elem rows 0) ''Username'')]) = Inr t"
  using assms
  by (auto simp add: post_login_def io_defs bind_named_def placeholders_login lookup_def first_row_def
      err_obj_def split: if_splits prod.splits sum.splits option.splits jsval.splits)

lemma login_examples:
  "sent (snd (run (app_index test_env) (new_request POST [''login''] None
     (JObj [(''username'', JStr ''carol''), (''password'', JStr ''x'')]) 0 0 test_store))) =
     Some (404, err_obj ''Username not found'')"
  "sent (snd (run (app_index test_env) (new_request POST [''login''] None
     (JObj [(''username'', JStr ''alice''), (''password'', JStr ''wrong'')]) 0 0 test_store))) =
     Some (401, JObj [(''err'', JStr ''Password is incorrect''), (''success'', JBool False)])"
  "sent (snd (run (app_index test_env) (new_request POST [''login''] None
     (JObj [(''username'', JStr ''alice''), (''password'', JStr ''apw'')]) 0 0 test_store))) =
     Some (200, JObj [(''jwt'', JStr ''signed''), (''success'', JBool True)])"
  by (simp_all add: app_index_def lease_def post_login_def eval_defs)

text \<open>
  Claim C6 on \<^verbatim>\<open>part_001\<close>.  \<^verbatim>\<open>POST /log-in\<close> answers an unknown username and a wrong
  password with status 200 and a bare string, not with 404 and 401.
\<close>

theorem legacy_log_in_answers_200:
  "sent (snd (run (app_legacy test_env) (new_request POST [''log-in''] None
     (JObj [(''username'', JStr ''carol''), (''password'', JStr ''x'')]) 0 0 test_store))) =
     Some (200, JStr ''Username not found'') \<and>
   sent (snd (run (app_legacy test_env) (new_request POST [''log-in''] None
     (JObj [(''username'', JStr ''alice''), (''password'', JStr ''wrong'')]) 0 0 test_store))) =
     Some (200, JStr ''Password not found'')"
  by (simp add: app_legacy_def lease_def post_log_in_legacy_def eval_defs TypeError_def)

text \<open>
  The token of \<^verbatim>\<open>part_001\<close> is signed for the row's \<^verbatim>\<open>id\<close> and \<^verbatim>\<open>username\<close> fields; the
  statements of the file name the column \<^verbatim>\<open>user_name\<close>.
\<close>

lemma placeholders_log_in_legacy: "placeholders sql_log_in_legacy = [''username'']"
  by (simp add: sql_log_in_legacy_def placeholders_def emit_def is_ident_def is_alpha_def)

lemma legacy_log_in_payload:
  assumes "sent c = None"
    and "sent (snd (post_log_in_legacy E c)) = Some (n, JObj [(''jwt'', JStr t)])"
  shows "\<exists>rows x.
           db_query E (store c) sql_log_in_legacy [field (body c) ''username''] =
             (Inr (JArr rows), x) \<and>
           jwt_sign E (JObj [(''userId'', field (elem rows 0) ''id''),
                             (''username'', field (elem rows 0) ''username'')]) = Inr t"
  using assms
  by (auto simp add: post_log_in_legacy_def io_defs bind_named_def placeholders_log_in_legacy
      lookup_def first_row_def get_prop_def err_obj_def
      split: if_splits prod.splits sum.splits option.splits jsval.splits)

section \<open>Whose entries a request touches\<close>

text \<open>
  The values each entry statement of \<^verbatim>\<open>part_000\<close> is run with.  Create and read bind the
  \<^verbatim>\<open>userId\<close> of the verified claims.  Update and soft-delete bind no identity at all:
  the row is chosen by the \<^verbatim>\<open>id\<close> of the body, or of the URL, alone.
\<close>

lemma placeholders_entries:
  "placeholders sql_post_entry = [''userId'', ''title'', ''content'', ''mood'', ''deletedFlag'']"
  "placeholders sql_put_entry = [''title'', ''content'', ''mood'', ''id'']"
  "placeholders sql_get_entry = [''userId'']"
  "placeholders sql_delete_entry = [''entryId'']"
  by (simp_all add: sql_defs placeholders_def emit_def is_ident_def is_alpha_def)

lemma entry_queries:
  "store (snd (post_entry_table E c)) =
     (if nullish (req_user c) \<or> nullish (body c) \<or> \<not> truthy (field (body c) ''title'') \<or>
         \<not> truthy (field (body c) ''content'') \<or> \<not> truthy (field (body c) ''mood'')
      then store c
      else snd (db_query E (store c) sql_post_entry
             [field (req_user c) ''userId'', field (body c) ''title'', field (body c) ''content'',
              field (body c) ''mood'', JNum 0]))"
  "store (snd (get_entry_table E c)) =
     (if nullish (req_user c) then store c
      else snd (db_query E (store c) sql_get_entry [field (req_user c) ''userId'']))"
  "store (snd (put_entry_table E c)) =
     (if nullish (body c) then store c
      else snd (db_query E (store c) sql_put_entry
             [field (body c) ''title'', field (body c) ''content'', field (body c) ''mood'',
              field (body c) ''id'']))"
  "store (snd (delete_entry_table E c)) =
     snd (db_query E (store c) sql_delete_entry [lookup (url_params c) ''id''])"
  by (auto simp add: post_entry_table_def get_entry_table_def put_entry_table_def
      delete_entry_table_def io_defs bind_named_def placeholders_entries lookup_def Let_def
      split: prod.splits sum.splits option.splits)

lemma update_and_delete_ignore_identity:
  "store (snd (put_entry_table E (c\<lparr>req_user := u\<rparr>))) = store (snd (put_entry_table E c))"
  "store (snd (delete_entry_table E (c\<lparr>req_user := u\<rparr>))) = store (snd (delete_entry_table E c))"
  by (simp_all add: entry_queries)

text \<open>
  Claim C3 on \<^verbatim>\<open>part_000\<close>.  A request authenticated as alice (user 1) soft-deletes, and
  another one overwrites, the entry owned by bob (user 2).
\<close>

theorem alice_changes_entry_of_bob:
  "field alice_claims ''userId'' = JNum 1 \<and> field entry_of_bob ''UserID'' = JNum 2 \<and>
   entries (store (snd (run (app_journal test_env)
      (new_request DELETE [''entry_table'', ''2''] (Some ''Bearer alice'') (JObj []) 0 0 test_store)))) =
     [entry_of_alice, set_field ''DeletedFlag'' (JNum 1) entry_of_bob] \<and>
   entries (store (snd (run (app_journal test_env)
      (new_request PUT [''entry_table''] (Some ''Bearer alice'')
         (JObj [(''id'', JNum 2), (''title'', JStr ''t''), (''content'', JStr ''alice was here''),
                (''mood'', JStr ''m'')]) 0 0 test_store)))) =
     [entry_of_alice,
      set_field ''Mood'' (JStr ''m'')
        (set_field ''Content'' (JStr ''alice was here'') (set_field ''Title'' (JStr ''t'') entry_of_bob))]"
  by (simp add: app_journal_def lease_def verifyJwt_def delete_entry_table_def put_entry_table_def
      eval_defs)

end
